theory Spec2Isabelle
  imports Complex_Main "HOL-Library.Word"
begin

section \<open>Numbers and typed arrays\<close>

text \<open>
  The audio pipeline of the repository (\<^verbatim>\<open>DeepgramProvider.ts\<close>,
  the AssemblyAI provider, \<^verbatim>\<open>VoiceAnalyzer.ts\<close>) is embedded here.
  JavaScript numbers are modelled as \<^typ>\<open>real\<close>: finite values. The resampler's
  arithmetic is rounded as the doubles and 32-bit floats of the code round it;
  elsewhere the arithmetic is exact. A \<^verbatim>\<open>Float32Array\<close> is a \<^typ>\<open>real list\<close>, an
  \<^verbatim>\<open>Int16Array\<close> a list of 16-bit words.
\<close>

type_synonym float32array = "real list"
type_synonym int16 = "16 word"
type_synonym int16array = "int16 list"
type_synonym byte = "8 word"

text \<open>Truncation towards zero, the integer part that \<^verbatim>\<open>ToInt16\<close> takes of a finite number.\<close>

definition js_trunc :: "real \<Rightarrow> int" where
  "js_trunc x = (if x < 0 then \<lceil>x\<rceil> else \<lfloor>x\<rfloor>)"

text \<open>
  Storing a number into an \<^verbatim>\<open>Int16Array\<close> element: the number is truncated
  towards zero and reduced modulo \<open>2^16\<close> into the signed range.
\<close>

definition ToInt16 :: "real \<Rightarrow> int16" where
  "ToInt16 x = word_of_int (js_trunc x)"

text \<open>\<^verbatim>\<open>Math.round\<close>: the nearest integer, halves towards plus infinity.\<close>

definition Math_round :: "real \<Rightarrow> int" where
  "Math_round x = \<lfloor>x + 1 / 2\<rfloor>"

section \<open>PCM encoder\<close>

text \<open>
  The body of the loop of \<^verbatim>\<open>convertFloat32ToInt16\<close>:
  \<^verbatim>\<open>let s = Math.max(-1, Math.min(1, buffer[i]));
  result[i] = s < 0 ? s * 0x8000 : s * 0x7fff;\<close>
\<close>

definition pcm_sample :: "real \<Rightarrow> int16" where
  "pcm_sample b =
     (let s = max (- 1) (min 1 b)
      in ToInt16 (if s < 0 then s * 32768 else s * 32767))"

definition convertFloat32ToInt16 :: "float32array \<Rightarrow> int16array" where
  "convertFloat32ToInt16 buffer = map pcm_sample buffer"

text \<open>
  The \<^verbatim>\<open>.buffer\<close> of an \<^verbatim>\<open>Int16Array\<close> handed to the socket: two bytes
  per element, low byte first (the byte order of the platforms the code runs on, and the
  one its comment names).
\<close>

definition int16_bytes :: "int16 \<Rightarrow> byte list" where
  "int16_bytes w = [ucast w, ucast (drop_bit 8 w)]"

definition array_buffer :: "int16array \<Rightarrow> byte list" where
  "array_buffer xs = concat (map int16_bytes xs)"

text \<open>The encoder as the specification words it: clamp, scale, round to nearest.\<close>

definition spec_pcm_sample :: "real \<Rightarrow> int" where
  "spec_pcm_sample b =
     (let s = max (- 1) (min 1 b)
      in if s \<ge> 0 then Math_round (s * 32767) else Math_round (s * 32768))"

text \<open>
  Modelled from the spec: the decoder of the round-trip property. The repository has no
  decoder; the inverse mapping divides by the scale the encoder multiplied with.
\<close>

definition pcm_decode :: "int16 \<Rightarrow> real" where
  "pcm_decode w = (if sint w < 0 then real_of_int (sint w) / 32768 else real_of_int (sint w) / 32767)"

text \<open>The variant of the inverse mapping that divides by \<open>32768\<close> on both sides.\<close>

definition pcm_decode_sym :: "int16 \<Rightarrow> real" where
  "pcm_decode_sym w = real_of_int (sint w) / 32768"

text \<open>The number the encoder stores: the clamped sample times the scale of its sign.\<close>

definition pcm_scaled :: "real \<Rightarrow> real" where
  "pcm_scaled b = (let s = max (- 1) (min 1 b) in if s < 0 then s * 32768 else s * 32767)"

section \<open>Floating-point rounding\<close>

text \<open>
  The resampler divides and multiplies sample rates and offsets, adds samples up and
  stores means in a \<^verbatim>\<open>Float32Array\<close>; what it returns depends on how these
  operations round. A JavaScript number is an IEEE 754 double: the result of an
  arithmetic operation is the exact result rounded to the nearest double, ties to the
  even significand. \<open>rne\<close> rounds a real to the nearest integer, ties to even.
\<close>

definition rne :: "real \<Rightarrow> int" where
  "rne y = (let f = \<lfloor>y\<rfloor>; d = y - real_of_int f
            in if d < 1 / 2 then f else if 1 / 2 < d then f + 1
               else if even f then f else f + 1)"

text \<open>
  Rounding to a binary format with \<open>p\<close> fraction bits and least normal exponent
  \<open>emin\<close>: the exponent of \<open>x\<close> is that of the greatest power of two not above
  \<open>\<bar>x\<bar>\<close>, not below \<open>emin\<close> (the subnormal numbers share the spacing of the least
  normal ones), and \<open>x\<close> is rounded to a multiple of the spacing at that exponent. The
  values too great for the format, which IEEE rounds to an infinity, are tested for
  where they can occur (\<open>overflow64\<close>).
\<close>

definition fround :: "nat \<Rightarrow> int \<Rightarrow> real \<Rightarrow> real" where
  "fround p emin x =
     (if x = 0 then 0
      else (let e = max \<lfloor>log 2 \<bar>x\<bar>\<rfloor> emin;
                u = 2 powi (e - int p)
            in real_of_int (rne (x / u)) * u))"

text \<open>Doubles and the elements of a \<^verbatim>\<open>Float32Array\<close>.\<close>

definition fl64 :: "real \<Rightarrow> real" where "fl64 = fround 52 (- 1022)"
definition fl32 :: "real \<Rightarrow> real" where "fl32 = fround 23 (- 126)"

text \<open>The reals a double operation rounds to an infinity: from the largest double plus half a step on.\<close>

definition overflow64 :: "real \<Rightarrow> bool" where
  "overflow64 x = (\<bar>x\<bar> \<ge> 2 ^ 1024 - 2 ^ 970)"

section \<open>Frame resampler\<close>

text \<open>What a JavaScript exception leaves behind: its kind.\<close>

datatype js_error = RangeError | TypeError

text \<open>
  The inner loop of \<^verbatim>\<open>downsampleBuffer\<close>:
  \<^verbatim>\<open>for (let i = offsetBuffer; i < nextOffsetBuffer && i < buffer.length; i++)
    { accum += buffer[i]; count++; }\<close>
  Each addition rounds to a double. Offsets are the integers \<^verbatim>\<open>Math.round\<close>
  returns; the loop only runs with a positive ratio, where they are not negative.
  The samples are the finite values a \<^verbatim>\<open>Float32Array\<close> holds.
\<close>

function block_loop :: "float32array \<Rightarrow> int \<Rightarrow> int \<Rightarrow> real \<Rightarrow> nat \<Rightarrow> real \<times> nat" where
  "block_loop buffer i nextOffsetBuffer accum count =
     (if i < nextOffsetBuffer \<and> i < int (length buffer)
      then block_loop buffer (i + 1) nextOffsetBuffer (fl64 (accum + buffer ! nat i)) (count + 1)
      else (accum, count))"
  by pat_completeness auto
termination
  by (relation "measure (\<lambda>(buffer, i, n, a, c). nat (int (length buffer) - i))") auto

text \<open>
  The outer loop, \<^verbatim>\<open>while (offsetResult < result.length)\<close>: one output sample per
  round. The product \<^verbatim>\<open>(offsetResult + 1) * sampleRateRatio\<close> and the quotient
  \<^verbatim>\<open>accum / count\<close> round to doubles, and the store into \<^verbatim>\<open>result\<close> rounds
  to a 32-bit float.
\<close>

function downsample_loop :: "float32array \<Rightarrow> real \<Rightarrow> nat \<Rightarrow> int \<Rightarrow> float32array \<Rightarrow> float32array" where
  "downsample_loop buffer sampleRateRatio offsetResult offsetBuffer result =
     (if offsetResult < length result
      then (let nextOffsetBuffer = Math_round (fl64 (real (offsetResult + 1) * sampleRateRatio));
                ac = block_loop buffer offsetBuffer nextOffsetBuffer 0 0
            in downsample_loop buffer sampleRateRatio (offsetResult + 1) nextOffsetBuffer
                 (result[offsetResult :=
                    (if snd ac \<noteq> 0 then fl32 (fl64 (fst ac / real (snd ac))) else 0)]))
      else result)"
  by pat_completeness auto
termination
  by (relation "measure (\<lambda>(buffer, r, j, ob, result). length result - j)") auto

text \<open>
  \<^verbatim>\<open>downsampleBuffer(buffer, srcRate, dstRate)\<close>. Equal rates return the buffer
  itself. Otherwise the ratio and the new length are quotients rounded to doubles.
  A target rate of 0, or a quotient beyond the doubles, makes the ratio infinite and
  the new length 0. A ratio of 0 makes the new length \<^verbatim>\<open>NaN\<close> for an empty buffer
  (an empty result) and infinite otherwise. \<^verbatim>\<open>new Float32Array(newLength)\<close> throws
  a \<^verbatim>\<open>RangeError\<close> on an infinite or negative length and on one above
  \<open>2^53 - 1\<close>; below that the array is taken to be allocated (memory is not
  modelled).
\<close>

definition downsampleBuffer :: "float32array \<Rightarrow> real \<Rightarrow> real \<Rightarrow> js_error + float32array" where
  "downsampleBuffer buffer srcRate dstRate =
     (if dstRate = srcRate then Inr buffer
      else if dstRate = 0 \<or> overflow64 (srcRate / dstRate) then Inr []
      else (let sampleRateRatio = fl64 (srcRate / dstRate)
            in if sampleRateRatio = 0
               then (if length buffer = 0 then Inr [] else Inl RangeError)
               else if overflow64 (real (length buffer) / sampleRateRatio) then Inl RangeError
               else (let newLength = Math_round (fl64 (real (length buffer) / sampleRateRatio))
                     in if newLength < 0 \<or> newLength > 2 ^ 53 - 1 then Inl RangeError
                        else Inr (downsample_loop buffer sampleRateRatio 0 0
                                    (replicate (nat newLength) 0)))))"

text \<open>
  What an output sample holds: the samples of the input block \<open>[lo, hi)\<close>, cut at the end
  of the buffer, added up from the left in doubles, divided by their number and rounded
  to a 32-bit float; \<open>0\<close> for an empty block.
\<close>

definition block_sum64 :: "float32array \<Rightarrow> int \<Rightarrow> int \<Rightarrow> real" where
  "block_sum64 buffer lo hi = foldl (\<lambda>accum i. fl64 (accum + buffer ! nat i)) 0 [lo..hi - 1]"

definition block_mean64 :: "float32array \<Rightarrow> int \<Rightarrow> int \<Rightarrow> real" where
  "block_mean64 buffer lo hi =
     (let hi' = min hi (int (length buffer))
      in if hi' \<le> lo then 0
         else fl32 (fl64 (block_sum64 buffer lo hi' / real_of_int (hi' - lo))))"

text \<open>
  The resampler as the specification words it, in exact arithmetic: the length
  \<open>round (L / (Fs_in / Fs_out))\<close> and the arithmetic mean of a block.
\<close>

definition spec_length :: "nat \<Rightarrow> real \<Rightarrow> real \<Rightarrow> int" where
  "spec_length L srcRate dstRate = round (real L / (srcRate / dstRate))"

definition block_mean :: "float32array \<Rightarrow> int \<Rightarrow> int \<Rightarrow> real" where
  "block_mean buffer lo hi =
     (let hi' = min hi (int (length buffer))
      in if hi' \<le> lo then 0
         else (\<Sum>i = lo..<hi'. buffer ! nat i) / real_of_int (hi' - lo))"

section \<open>Voice-activity gate with pre-roll\<close>

text \<open>
  The closure state of the \<^verbatim>\<open>node.port.onmessage\<close> handler of
  \<^verbatim>\<open>DeepgramProvider.startListening\<close>.
\<close>

record vad_state =
  preRollFrames :: "int16array list"
  inSpeech :: bool
  lastSpeechTs :: int

definition vadThreshold :: real where "vadThreshold = 1 / 100"
definition hangoverMs :: int where "hangoverMs = 300"
definition dstRate16k :: real where "dstRate16k = 16000"
definition maxPreRoll :: nat where "maxPreRoll = 8"

definition vad_init :: vad_state where
  "vad_init = \<lparr>preRollFrames = [], inSpeech = False, lastSpeechTs = 0\<rparr>"

text \<open>\<^verbatim>\<open>Math.sqrt(sum / down.length)\<close> with \<open>sum\<close> the sum of the squares.\<close>

definition frame_rms :: "float32array \<Rightarrow> real" where
  "frame_rms down = sqrt ((\<Sum>v\<leftarrow>down. v * v) / real (length down))"

text \<open>\<^verbatim>\<open>preRollFrames.push(pcm16); if (preRollFrames.length > maxPreRoll) preRollFrames.shift();\<close>\<close>

definition push_preRoll :: "int16array list \<Rightarrow> int16array \<Rightarrow> int16array list" where
  "push_preRoll frames pcm16 =
     (let pushed = frames @ [pcm16]
      in if length pushed > maxPreRoll then tl pushed else pushed)"

text \<open>
  The flush, \<^verbatim>\<open>while (preRollFrames.length) { chunk = preRollFrames.shift(); send }\<close>:
  the frames leave oldest first, each sent when the socket is open. It returns what was
  sent; the array is empty afterwards.
\<close>

fun flush_preRoll :: "bool \<Rightarrow> int16array list \<Rightarrow> byte list list" where
  "flush_preRoll ws_open [] = []"
| "flush_preRoll ws_open (chunk # rest) =
     (if ws_open then [array_buffer chunk] else []) @ flush_preRoll ws_open rest"

text \<open>
  One message of the worklet. \<open>sampleRate\<close> is the audio context's rate, \<open>ws_open\<close>
  says that \<^verbatim>\<open>this.ws\<close> is a socket in state \<^verbatim>\<open>OPEN\<close>, \<open>now\<close> is what
  \<^verbatim>\<open>Date.now()\<close> returns. The result is the new state and the buffers handed to
  \<^verbatim>\<open>ws.send\<close>, in order. An exception (the resampler's) is caught and logged by the
  handler before anything has changed.
\<close>

definition vad_onmessage :: "real \<Rightarrow> bool \<Rightarrow> vad_state \<Rightarrow> float32array \<Rightarrow> int \<Rightarrow> vad_state \<times> byte list list" where
  "vad_onmessage sampleRate ws_open st float32 now =
     (case downsampleBuffer float32 sampleRate dstRate16k of
        Inl err \<Rightarrow> (st, [])
      | Inr down \<Rightarrow>
          (let rms = frame_rms down;
               pcm16 = convertFloat32ToInt16 down;
               frames = push_preRoll (preRollFrames st) pcm16
           in if rms \<ge> vadThreshold
              then (st\<lparr>preRollFrames := [], inSpeech := True, lastSpeechTs := now\<rparr>,
                    flush_preRoll ws_open frames @ (if ws_open then [array_buffer pcm16] else []))
              else if inSpeech st
                then (if now - lastSpeechTs st \<le> hangoverMs
                      then (st\<lparr>preRollFrames := frames\<rparr>,
                            if ws_open then [array_buffer pcm16] else [])
                      else (st\<lparr>preRollFrames := frames, inSpeech := False\<rparr>, []))
                else (st\<lparr>preRollFrames := frames\<rparr>, [])))"

text \<open>A run of worklet messages, each with its clock reading; the sends are collected in order.\<close>

fun vad_run :: "real \<Rightarrow> bool \<Rightarrow> vad_state \<Rightarrow> (float32array \<times> int) list \<Rightarrow> vad_state \<times> byte list list" where
  "vad_run sampleRate ws_open st [] = (st, [])"
| "vad_run sampleRate ws_open st ((float32, now) # rest) =
     (let r = vad_onmessage sampleRate ws_open st float32 now;
          r' = vad_run sampleRate ws_open (fst r) rest
      in (fst r', snd r @ snd r'))"


section \<open>Streaming transport\<close>

text \<open>
  The provider object (\<^verbatim>\<open>DeepgramProvider\<close>; the AssemblyAI provider has the same
  fields and the same reconnect code). A \<^verbatim>\<open>WebSocket\<close> the provider created is
  an index into \<open>sockets\<close>, which holds its \<^verbatim>\<open>readyState\<close>; every such socket
  carries the handlers \<^verbatim>\<open>initialize\<close> attached to it, and nothing ever removes
  them. \<open>timers\<close> are the delays of the pending \<^verbatim>\<open>setTimeout\<close> calls,
  \<open>reported\<close> the messages given to the \<^verbatim>\<open>onError\<close> callback, \<open>console_errors\<close>
  those written with \<^verbatim>\<open>console.error\<close>, \<open>transcripts\<close> the calls of the
  \<^verbatim>\<open>onTranscript\<close> callback.
\<close>

datatype ready_state = CONNECTING | OPEN | CLOSING | CLOSED

record provider =
  ws :: "nat option"
  sockets :: "ready_state list"
  isListening :: bool
  onTranscript_set :: bool
  onError_set :: bool
  reconnectAttempts :: nat
  timers :: "nat list"
  reported :: "string list"
  console_errors :: "string list"
  transcripts :: "(string \<times> bool) list"

definition maxReconnectAttempts :: nat where "maxReconnectAttempts = 5"

text \<open>The object after its constructor.\<close>

definition new_provider :: provider where
  "new_provider = \<lparr>ws = None, sockets = [], isListening = False, onTranscript_set = False,
     onError_set = False, reconnectAttempts = 0, timers = [], reported = [],
     console_errors = [], transcripts = []\<rparr>"

text \<open>\<^verbatim>\<open>this.onError?.(msg)\<close>: the callback is called when there is one.\<close>

definition call_onError :: "string \<Rightarrow> provider \<Rightarrow> provider" where
  "call_onError msg p = (if onError_set p then p\<lparr>reported := reported p @ [msg]\<rparr> else p)"

text \<open>\<^verbatim>\<open>initialize\<close>: a new socket, connecting, becomes \<^verbatim>\<open>this.ws\<close>.\<close>

definition initialize :: "provider \<Rightarrow> provider" where
  "initialize p = p\<lparr>ws := Some (length (sockets p)), sockets := sockets p @ [CONNECTING]\<rparr>"

text \<open>
  \<^verbatim>\<open>attemptReconnect\<close>: below the limit it counts the attempt and schedules
  \<^verbatim>\<open>initialize\<close> after \<^verbatim>\<open>Math.min(1000 * Math.pow(2, reconnectAttempts), 10000)\<close>
  milliseconds; at the limit it reports and schedules nothing.
\<close>

definition attemptReconnect :: "provider \<Rightarrow> provider" where
  "attemptReconnect p =
     (if reconnectAttempts p < maxReconnectAttempts
      then (let n = reconnectAttempts p + 1;
                delay = min (1000 * 2 ^ n) 10000
            in p\<lparr>reconnectAttempts := n, timers := timers p @ [delay]\<rparr>)
      else call_onError ''Lost connection to Deepgram service and could not reconnect''
             (p\<lparr>console_errors := console_errors p @ [''[Deepgram] Max reconnection attempts reached'']\<rparr>))"

text \<open>The handlers \<^verbatim>\<open>initialize\<close> attaches to a socket.\<close>

definition ws_onopen :: "provider \<Rightarrow> provider" where
  "ws_onopen p = p\<lparr>reconnectAttempts := 0\<rparr>"

definition ws_onerror :: "provider \<Rightarrow> provider" where
  "ws_onerror p =
     call_onError ''Failed to connect to Deepgram service. Please check your connection.''
       (p\<lparr>console_errors := console_errors p @ [''[Deepgram] WebSocket error:'']\<rparr>)"

definition ws_onclose :: "provider \<Rightarrow> provider" where
  "ws_onclose p = attemptReconnect p"

text \<open>
  \<^verbatim>\<open>disconnect\<close>: \<^verbatim>\<open>this.ws.close(); this.ws = null; this.isListening = false\<close>.
  Closing a socket starts its closing handshake; the socket keeps its handlers.
\<close>

definition ws_close :: "nat \<Rightarrow> ready_state list \<Rightarrow> ready_state list" where
  "ws_close k socks =
     (if k < length socks \<and> (socks ! k = CONNECTING \<or> socks ! k = OPEN)
      then socks[k := CLOSING] else socks)"

definition disconnect :: "provider \<Rightarrow> provider" where
  "disconnect p =
     (case ws p of
        Some k \<Rightarrow> p\<lparr>sockets := ws_close k (sockets p), ws := None, isListening := False\<rparr>
      | None \<Rightarrow> p\<lparr>isListening := False\<rparr>)"

text \<open>
  What the browser does to the provider between its own calls: a connecting socket
  opens, a socket fails, a socket that is not yet closed closes (after a failure, a
  loss of the connection, or the handshake \<^verbatim>\<open>close()\<close> started), the oldest
  pending timer fires and runs \<^verbatim>\<open>initialize\<close>. Each event runs the handler the
  socket carries.
\<close>

datatype event = SocketOpens nat | SocketFails nat | SocketCloses nat | TimerFires

fun deliver :: "event \<Rightarrow> provider \<Rightarrow> provider" where
  "deliver (SocketOpens k) p =
     (if k < length (sockets p) \<and> sockets p ! k = CONNECTING
      then ws_onopen (p\<lparr>sockets := (sockets p)[k := OPEN]\<rparr>) else p)"
| "deliver (SocketFails k) p =
     (if k < length (sockets p) \<and> sockets p ! k \<noteq> CLOSED
      then ws_onerror p else p)"
| "deliver (SocketCloses k) p =
     (if k < length (sockets p) \<and> sockets p ! k \<noteq> CLOSED
      then ws_onclose (p\<lparr>sockets := (sockets p)[k := CLOSED]\<rparr>) else p)"
| "deliver TimerFires p =
     (case timers p of [] \<Rightarrow> p | d # ds \<Rightarrow> initialize (p\<lparr>timers := ds\<rparr>))"

fun deliver_all :: "event list \<Rightarrow> provider \<Rightarrow> provider" where
  "deliver_all [] p = p"
| "deliver_all (e # es) p = deliver_all es (deliver e p)"

text \<open>
  One failed reconnect: the pending timer fires, \<^verbatim>\<open>initialize\<close> makes a socket,
  the socket fails and closes at once.
\<close>

definition failed_attempt :: "provider \<Rightarrow> provider" where
  "failed_attempt p =
     (let q = deliver TimerFires p
      in case ws q of
           None \<Rightarrow> q
         | Some k \<Rightarrow> deliver (SocketCloses k) (deliver (SocketFails k) q))"

section \<open>Provider messages\<close>

text \<open>
  A message as \<^verbatim>\<open>JSON.parse\<close> returns it, with the fields \<^verbatim>\<open>handleMessage\<close>
  reads: \<open>None\<close> is an absent field. A text that does not parse is \<open>None\<close> as a
  whole: the handler catches the exception and logs it.
\<close>

record TranscriptEvent =
  msg_type :: string
  msg_text :: "string option"
  msg_isFinal :: "bool option"
  msg_message :: "string option"

text \<open>JavaScript truthiness of an optional string and of an optional boolean.\<close>

definition truthy_string :: "string option \<Rightarrow> bool" where
  "truthy_string s = (case s of None \<Rightarrow> False | Some t \<Rightarrow> t \<noteq> [])"

definition truthy_bool :: "bool option \<Rightarrow> bool" where
  "truthy_bool b = (case b of None \<Rightarrow> False | Some v \<Rightarrow> v)"

text \<open>\<^verbatim>\<open>DeepgramProvider.handleMessage\<close>.\<close>

definition handleMessage :: "TranscriptEvent option \<Rightarrow> provider \<Rightarrow> provider" where
  "handleMessage data p =
     (case data of
        None \<Rightarrow> p\<lparr>console_errors := console_errors p @ [''[Deepgram] Failed to parse message:'']\<rparr>
      | Some message \<Rightarrow>
          if msg_type message = ''connected'' then p
          else if msg_type message = ''transcript'' then
            (if truthy_string (msg_text message) \<and> onTranscript_set p
             then p\<lparr>transcripts := transcripts p @ [(the (msg_text message), truthy_bool (msg_isFinal message))]\<rparr>
             else p)
          else if msg_type message = ''error'' then
            call_onError (if truthy_string (msg_message message) then the (msg_message message)
                          else ''Service error occurred'')
              (p\<lparr>console_errors := console_errors p @ [''[Deepgram] Service error:'']\<rparr>)
          else p)"

text \<open>
  The AssemblyAI provider's \<^verbatim>\<open>handleMessage\<close>: the message type says whether a
  transcript is final.
\<close>

record AssemblyAITranscript =
  message_type :: string
  transcript :: "string option"
  aai_message :: "string option"

definition handleMessage_assemblyai :: "AssemblyAITranscript option \<Rightarrow> provider \<Rightarrow> provider" where
  "handleMessage_assemblyai data p =
     (case data of
        None \<Rightarrow> p\<lparr>console_errors := console_errors p @ [''[AssemblyAI] Failed to parse message:'']\<rparr>
      | Some message \<Rightarrow>
          if message_type message = ''SessionBegins'' then p
          else if message_type message = ''Transcript'' then
            (if truthy_string (transcript message) \<and> onTranscript_set p
             then p\<lparr>transcripts := transcripts p @ [(the (transcript message), False)]\<rparr>
             else p)
          else if message_type message = ''FinalTranscript'' then
            (if truthy_string (transcript message) \<and> onTranscript_set p
             then p\<lparr>transcripts := transcripts p @ [(the (transcript message), True)]\<rparr>
             else p)
          else if message_type message = ''SessionTerminated'' then p
          else if message_type message = ''Error'' then
            call_onError (if truthy_string (aai_message message) then the (aai_message message)
                          else ''AssemblyAI error'')
              (p\<lparr>console_errors := console_errors p @ [''[AssemblyAI] Error:'']\<rparr>)
          else p)"


section \<open>Voice analyzer\<close>

record VoiceProfile =
  avgPitch :: real
  pitchStdDev :: real
  avgEnergy :: real
  spectralCentroid :: real
  timestamp :: int

text \<open>The object \<^verbatim>\<open>{ pitch, energy, spectralCentroid }\<close>.\<close>

record Features =
  f_pitch :: real
  f_energy :: real
  f_spectralCentroid :: real

record SpeakerChangeEvent =
  ev_timestamp :: int
  ev_confidence :: real
  ev_newSpeaker :: nat
  ev_features :: Features

text \<open>What \<^verbatim>\<open>analyzeFrame\<close> returns: \<^verbatim>\<open>{ speaker, changeEvent }\<close>.\<close>

record Analysis =
  speaker :: nat
  changeEvent :: "SpeakerChangeEvent option"

text \<open>
  The analyzer object. The private fields that are set once and never assigned again
  are constants: \<^verbatim>\<open>speakerChangeThreshold = 0.7\<close>, \<^verbatim>\<open>windowSize = 2048\<close>,
  \<^verbatim>\<open>analysisWindowSize = 50\<close>. The sample rate is a positive number.
\<close>

record VoiceAnalyzer =
  sampleRate :: real
  pitchHistory :: "real list"
  energyHistory :: "real list"
  spectralHistory :: "real list"
  speakerProfiles :: "nat \<rightharpoonup> VoiceProfile"
  currentSpeaker :: nat

definition speakerChangeThreshold :: real where "speakerChangeThreshold = 7 / 10"
definition windowSize :: nat where "windowSize = 2048"
definition analysisWindowSize :: nat where "analysisWindowSize = 50"

definition zero_profile :: "int \<Rightarrow> VoiceProfile" where
  "zero_profile now = \<lparr>avgPitch = 0, pitchStdDev = 0, avgEnergy = 0, spectralCentroid = 0, timestamp = now\<rparr>"

text \<open>The constructor; \<open>now\<close> is the clock when the profiles are made.\<close>

definition new_VoiceAnalyzer :: "real \<Rightarrow> int \<Rightarrow> VoiceAnalyzer" where
  "new_VoiceAnalyzer rate now =
     \<lparr>sampleRate = rate, pitchHistory = [], energyHistory = [], spectralHistory = [],
      speakerProfiles = [0 \<mapsto> zero_profile now, 1 \<mapsto> zero_profile now], currentSpeaker = 0\<rparr>"

text \<open>
  \<^verbatim>\<open>extractPitch\<close>. One round of the loop over the lags: the correlation of the frame
  with itself shifted by \<open>lag\<close>, divided by the frame length, replaces the best so far
  when it is greater.
\<close>

definition pitch_step :: "float32array \<Rightarrow> nat \<Rightarrow> nat \<times> real \<Rightarrow> nat \<times> real" where
  "pitch_step audioData lag best =
     (let correlation =
            (\<Sum>i\<leftarrow>[0..<length audioData - lag]. audioData ! i * audioData ! (i + lag))
              / real (length audioData)
      in if correlation > snd best then (lag, correlation) else best)"

definition extractPitch :: "real \<Rightarrow> float32array \<Rightarrow> real" where
  "extractPitch rate audioData =
     (let maxLag = nat \<lfloor>rate / 80\<rfloor>;
          minLag = nat \<lfloor>rate / 400\<rfloor>;
          best = fold (pitch_step audioData) [minLag..<maxLag] (0, 0)
      in if snd best > 1 / 10 then rate / real (fst best) else 0)"

definition extractEnergy :: "float32array \<Rightarrow> real" where
  "extractEnergy audioData = sqrt ((\<Sum>v\<leftarrow>audioData. v * v) / real (length audioData))"

definition applyHannWindow :: "float32array \<Rightarrow> float32array" where
  "applyHannWindow audioData =
     map (\<lambda>i. audioData ! i * (1 / 2 * (1 - cos (2 * pi * real i / (real (length audioData) - 1)))))
       [0..<length audioData]"

text \<open>One round of the loop of \<^verbatim>\<open>extractBandEnergy\<close> over \<open>i < length - 1\<close>.\<close>

definition band_step :: "float32array \<Rightarrow> nat \<Rightarrow> real list \<Rightarrow> real list" where
  "band_step audioData i bands =
     (let diff = \<bar>audioData ! (i + 1) - audioData ! i\<bar>;
          bandIndex = \<lfloor>real i / real (length audioData) * 16\<rfloor>
      in if bandIndex < 16
         then bands[nat bandIndex := bands ! nat bandIndex + diff * diff]
         else bands)"

definition extractBandEnergy :: "float32array \<Rightarrow> real list" where
  "extractBandEnergy audioData =
     map (\<lambda>e. sqrt (e / real (length audioData)))
       (fold (band_step audioData) [0..<length audioData - 1] (replicate 16 0))"

text \<open>
  \<^verbatim>\<open>extractSpectralCentroid\<close>: the \<^verbatim>\<open>forEach\<close> adds \<open>freq * energy\<close> to the
  numerator and \<open>energy\<close> to the denominator, band by band.
\<close>

definition centroid_step :: "real \<Rightarrow> real \<times> nat \<Rightarrow> real \<times> real \<Rightarrow> real \<times> real" where
  "centroid_step rate ei nd =
     (let freq = real (snd ei) * rate / real windowSize
      in (fst nd + freq * fst ei, snd nd + fst ei))"

definition extractSpectralCentroid :: "real \<Rightarrow> float32array \<Rightarrow> real" where
  "extractSpectralCentroid rate audioData =
     (let windowed = applyHannWindow audioData;
          bandEnergy = extractBandEnergy windowed;
          nd = fold (centroid_step rate) (zip bandEnergy [0..<length bandEnergy]) (0, 0)
      in if snd nd > 0 then fst nd / snd nd else 0)"

definition calculateDistance :: "Features \<Rightarrow> VoiceProfile \<Rightarrow> real" where
  "calculateDistance features profile =
     (let pitchDiff = (if avgPitch profile > 0
                       then \<bar>f_pitch features - avgPitch profile\<bar> / avgPitch profile else 0);
          energyDiff = \<bar>f_energy features - avgEnergy profile\<bar> / (avgEnergy profile + 1 / 100);
          spectralDiff = (if spectralCentroid profile > 0
                          then \<bar>f_spectralCentroid features - spectralCentroid profile\<bar>
                                 / spectralCentroid profile
                          else 0)
      in pitchDiff * (1 / 2) + energyDiff * (1 / 4) + spectralDiff * (1 / 4))"

text \<open>
  \<^verbatim>\<open>detectSpeakerChange\<close> returns \<^verbatim>\<open>{ newSpeaker, confidence }\<close>. Reading a
  profile the map does not hold is a \<^verbatim>\<open>TypeError\<close>.
\<close>

definition detectSpeakerChange :: "VoiceAnalyzer \<Rightarrow> real \<Rightarrow> real \<Rightarrow> real \<Rightarrow> js_error + (nat \<times> real)" where
  "detectSpeakerChange a pitch energy centroid =
     (case (speakerProfiles a 0, speakerProfiles a 1) of
        (Some profile0, Some profile1) \<Rightarrow>
          (let features = \<lparr>f_pitch = pitch, f_energy = energy, f_spectralCentroid = centroid\<rparr>;
               distance0 = calculateDistance features profile0;
               distance1 = calculateDistance features profile1;
               newSpeaker = (if distance0 < distance1 then 0 else 1);
               maxDistance = max distance0 distance1;
               minDistance = min distance0 distance1;
               confidence = (if maxDistance > 0 then minDistance / maxDistance else 1 / 2)
           in Inr (newSpeaker, confidence))
      | _ \<Rightarrow> Inl TypeError)"

text \<open>
  \<^verbatim>\<open>updateSpeakerProfile\<close>: the moving averages with \<open>alpha = 0.1\<close>, the clock, and
  the deviation of the last 20 pitches of the history.
\<close>

definition updateSpeakerProfile :: "VoiceAnalyzer \<Rightarrow> nat \<Rightarrow> real \<Rightarrow> real \<Rightarrow> real \<Rightarrow> int \<Rightarrow> js_error + VoiceAnalyzer" where
  "updateSpeakerProfile a speakerId pitch energy centroid now =
     (case speakerProfiles a speakerId of
        None \<Rightarrow> Inl TypeError
      | Some profile \<Rightarrow>
          (let alpha = 1 / 10;
               profile1 = profile\<lparr>avgPitch := avgPitch profile * (1 - alpha) + pitch * alpha,
                                  avgEnergy := avgEnergy profile * (1 - alpha) + energy * alpha,
                                  spectralCentroid := spectralCentroid profile * (1 - alpha) + centroid * alpha,
                                  timestamp := now\<rparr>;
               recentPitches = drop (length (pitchHistory a) - 20) (pitchHistory a);
               profile2 =
                 (if length recentPitches > 0
                  then (let meanPitch = sum_list recentPitches / real (length recentPitches);
                            variance = (\<Sum>p\<leftarrow>recentPitches. (p - meanPitch) ^ 2)
                                         / real (length recentPitches)
                        in profile1\<lparr>pitchStdDev := sqrt variance\<rparr>)
                  else profile1)
           in Inr (a\<lparr>speakerProfiles := (speakerProfiles a)(speakerId \<mapsto> profile2)\<rparr>)))"

text \<open>
  The part of \<^verbatim>\<open>analyzeFrame\<close> after the three features are extracted: the
  histories, the test on the history length, the classification and the switch.
  \<open>tUpdate\<close> and \<open>tEvent\<close> are the two readings of the clock.
\<close>

definition analyzeFeatures :: "VoiceAnalyzer \<Rightarrow> real \<Rightarrow> real \<Rightarrow> real \<Rightarrow> int \<Rightarrow> int \<Rightarrow> js_error + (VoiceAnalyzer \<times> Analysis)" where
  "analyzeFeatures a pitch energy centroid tUpdate tEvent =
     (let a1 = a\<lparr>pitchHistory := pitchHistory a @ [pitch],
                  energyHistory := energyHistory a @ [energy],
                  spectralHistory := spectralHistory a @ [centroid]\<rparr>;
          a2 = (if length (pitchHistory a1) > analysisWindowSize
                then a1\<lparr>pitchHistory := tl (pitchHistory a1),
                        energyHistory := tl (energyHistory a1),
                        spectralHistory := tl (spectralHistory a1)\<rparr>
                else a1)
      in if length (pitchHistory a2) > 10
         then (case detectSpeakerChange a2 pitch energy centroid of
                 Inl err \<Rightarrow> Inl err
               | Inr (newSpeaker, confidence) \<Rightarrow>
                   if newSpeaker \<noteq> currentSpeaker a2 \<and> confidence > speakerChangeThreshold
                   then (case updateSpeakerProfile (a2\<lparr>currentSpeaker := newSpeaker\<rparr>)
                                newSpeaker pitch energy centroid tUpdate of
                           Inl err \<Rightarrow> Inl err
                         | Inr a3 \<Rightarrow>
                             Inr (a3, \<lparr>speaker = currentSpeaker a3,
                                       changeEvent = Some \<lparr>ev_timestamp = tEvent,
                                         ev_confidence = confidence, ev_newSpeaker = newSpeaker,
                                         ev_features = \<lparr>f_pitch = pitch, f_energy = energy,
                                           f_spectralCentroid = centroid\<rparr>\<rparr>\<rparr>))
                   else Inr (a2, \<lparr>speaker = currentSpeaker a2, changeEvent = None\<rparr>))
         else Inr (a2, \<lparr>speaker = currentSpeaker a2, changeEvent = None\<rparr>))"

definition analyzeFrame :: "VoiceAnalyzer \<Rightarrow> float32array \<Rightarrow> int \<Rightarrow> int \<Rightarrow> js_error + (VoiceAnalyzer \<times> Analysis)" where
  "analyzeFrame a audioData tUpdate tEvent =
     analyzeFeatures a (extractPitch (sampleRate a) audioData) (extractEnergy audioData)
       (extractSpectralCentroid (sampleRate a) audioData) tUpdate tEvent"

text \<open>\<^verbatim>\<open>reset\<close>: the histories are emptied, the speaker is 0, every profile is zeroed.\<close>

definition reset :: "VoiceAnalyzer \<Rightarrow> int \<Rightarrow> VoiceAnalyzer" where
  "reset a now =
     a\<lparr>pitchHistory := [], energyHistory := [], spectralHistory := [], currentSpeaker := 0,
       speakerProfiles := (\<lambda>k. map_option (\<lambda>profile. zero_profile now) (speakerProfiles a k))\<rparr>"

text \<open>Frames fed one after the other, each with its two clock readings.\<close>

fun analyzeFrames :: "VoiceAnalyzer \<Rightarrow> (float32array \<times> int \<times> int) list \<Rightarrow> js_error + (VoiceAnalyzer \<times> Analysis list)" where
  "analyzeFrames a [] = Inr (a, [])"
| "analyzeFrames a ((audioData, tUpdate, tEvent) # rest) =
     (case analyzeFrame a audioData tUpdate tEvent of
        Inl err \<Rightarrow> Inl err
      | Inr (a', r) \<Rightarrow>
          (case analyzeFrames a' rest of
             Inl err \<Rightarrow> Inl err
           | Inr (a'', rs) \<Rightarrow> Inr (a'', r # rs)))"

text \<open>The states an analyzer object passes through: made, fed frames, reset.\<close>

inductive reachable :: "VoiceAnalyzer \<Rightarrow> bool" where
  made: "reachable (new_VoiceAnalyzer rate now)"
| fed: "reachable a \<Longrightarrow> analyzeFrame a audioData tUpdate tEvent = Inr (a', r) \<Longrightarrow> reachable a'"
| was_reset: "reachable a \<Longrightarrow> reachable (reset a now)"


text \<open>
  A provider in a running session: \<^verbatim>\<open>initialize\<close> has resolved (its socket is open)
  and \<^verbatim>\<open>startListening\<close> has registered both callbacks.
\<close>

definition started_session :: provider where
  "started_session =
     deliver (SocketOpens 0)
       (initialize (new_provider\<lparr>isListening := True, onTranscript_set := True, onError_set := True\<rparr>))"


text \<open>The last \<open>n\<close> elements of a list.\<close>

definition lastn :: "nat \<Rightarrow> 'a list \<Rightarrow> 'a list" where
  "lastn n xs = drop (length xs - n) xs"

text \<open>A frame the gate takes for silence: its RMS is below the threshold.\<close>

definition quiet :: "float32array \<Rightarrow> bool" where
  "quiet f = (frame_rms f < vadThreshold)"


text \<open>
  The confidence \<^verbatim>\<open>detectSpeakerChange\<close> computes from the two distances:
  \<^verbatim>\<open>maxDistance > 0 ? minDistance / maxDistance : 0.5\<close>.
\<close>

definition confidence_of :: "real \<Rightarrow> real \<Rightarrow> real" where
  "confidence_of distance0 distance1 =
     (let maxDistance = max distance0 distance1;
          minDistance = min distance0 distance1
      in if maxDistance > 0 then minDistance / maxDistance else 1 / 2)"

text \<open>
  The analyzer after the history update of \<^verbatim>\<open>analyzeFrame\<close>: the three features are
  pushed and, beyond the window of 50, the oldest entries are shifted out.
\<close>

definition push_history :: "VoiceAnalyzer \<Rightarrow> real \<Rightarrow> real \<Rightarrow> real \<Rightarrow> VoiceAnalyzer" where
  "push_history a pitch energy centroid =
     (let a1 = a\<lparr>pitchHistory := pitchHistory a @ [pitch],
                  energyHistory := energyHistory a @ [energy],
                  spectralHistory := spectralHistory a @ [centroid]\<rparr>
      in if length (pitchHistory a1) > analysisWindowSize
         then a1\<lparr>pitchHistory := tl (pitchHistory a1),
                 energyHistory := tl (energyHistory a1),
                 spectralHistory := tl (spectralHistory a1)\<rparr>
         else a1)"

text \<open>The same for a frame, and the classification of a frame against the two profiles.\<close>

definition push_frame :: "VoiceAnalyzer \<Rightarrow> float32array \<Rightarrow> VoiceAnalyzer" where
  "push_frame a audioData =
     push_history a (extractPitch (sampleRate a) audioData) (extractEnergy audioData)
       (extractSpectralCentroid (sampleRate a) audioData)"

definition classify_frame :: "VoiceAnalyzer \<Rightarrow> float32array \<Rightarrow> js_error + (nat \<times> real)" where
  "classify_frame a audioData =
     detectSpeakerChange a (extractPitch (sampleRate a) audioData) (extractEnergy audioData)
       (extractSpectralCentroid (sampleRate a) audioData)"

text \<open>
  What holds of the analyzer between calls: the histories are equally long and at most
  50 long, the speaker is 0 or 1, both profiles exist.
\<close>

definition analyzer_inv :: "VoiceAnalyzer \<Rightarrow> bool" where
  "analyzer_inv a =
     (length (pitchHistory a) = length (energyHistory a) \<and>
      length (energyHistory a) = length (spectralHistory a) \<and>
      length (pitchHistory a) \<le> 50 \<and> currentSpeaker a \<le> 1 \<and>
      speakerProfiles a 0 \<noteq> None \<and> speakerProfiles a 1 \<noteq> None)"

text \<open>
  A two-sample frame of full amplitude: at 16 kHz it has no pitch, energy 1 and
  centroid 0. \<open>warm n\<close> is an analyzer made at 16 kHz that has seen \<open>n\<close> such frames and
  has not classified yet.
\<close>

definition tone :: float32array where "tone = [1, 1]"

definition warm :: "nat \<Rightarrow> VoiceAnalyzer" where
  "warm n = \<lparr>sampleRate = 16000, pitchHistory = replicate n 0, energyHistory = replicate n 1,
     spectralHistory = replicate n 0,
     speakerProfiles = [0 \<mapsto> zero_profile 0, 1 \<mapsto> zero_profile 0], currentSpeaker = 0\<rparr>"


section \<open>Properties of the PCM encoder\<close>

lemma sint_word16:
  "- 32768 \<le> k \<Longrightarrow> k < 32768 \<Longrightarrow> sint (word_of_int k :: 16 word) = k"
  by (simp add: sint_sbintrunc' signed_take_bit_int_eq_self)

lemma js_trunc_le: "x \<le> real_of_int a \<Longrightarrow> js_trunc x \<le> a"
  unfolding js_trunc_def by (auto simp: ceiling_le_iff floor_le_iff) linarith?

lemma js_trunc_ge: "real_of_int a \<le> x \<Longrightarrow> a \<le> js_trunc x"
  unfolding js_trunc_def by (auto simp: le_ceiling_iff le_floor_iff) linarith?

lemma sint_ToInt16:
  assumes "- 32768 \<le> x" and "x \<le> 32767"
  shows "sint (ToInt16 x) = js_trunc x"
proof -
  have "- 32768 \<le> js_trunc x"
    using js_trunc_ge [of "- 32768" x] assms by simp
  moreover have "js_trunc x \<le> 32767"
    using js_trunc_le [of x 32767] assms by simp
  ultimately show ?thesis
    unfolding ToInt16_def by (simp add: sint_word16)
qed

lemma pcm_scaled_range: "- 32768 \<le> pcm_scaled b \<and> pcm_scaled b \<le> 32767"
  unfolding pcm_scaled_def Let_def by (auto simp: max_def min_def)

lemma sint_pcm_sample: "sint (pcm_sample b) = js_trunc (pcm_scaled b)"
  using pcm_scaled_range [of b] sint_ToInt16 [of "pcm_scaled b"]
  by (simp add: pcm_sample_def pcm_scaled_def Let_def)

lemma length_array_buffer: "length (array_buffer xs) = 2 * length xs"
  by (induction xs) (simp_all add: array_buffer_def int16_bytes_def)

lemma array_buffer_nth:
  "i < length xs \<Longrightarrow>
     array_buffer xs ! (2 * i) = ucast (xs ! i) \<and>
     array_buffer xs ! (2 * i + 1) = ucast (drop_bit 8 (xs ! i))"
proof (induction xs arbitrary: i)
  case Nil
  then show ?case by simp
next
  case (Cons x xs)
  show ?case
  proof (cases i)
    case 0
    then show ?thesis by (simp add: array_buffer_def int16_bytes_def)
  next
    case (Suc j)
    then have "j < length xs" using Cons.prems by simp
    from Cons.IH [OF this] show ?thesis
      using Suc by (simp add: array_buffer_def int16_bytes_def)
  qed
qed

lemma int16_little_endian:
  "uint (w :: 16 word) = uint (ucast w :: 8 word) + 256 * uint (ucast (drop_bit 8 w) :: 8 word)"
proof -
  have lo: "uint (ucast w :: 8 word) = uint w mod 256"
    by (simp add: take_bit_eq_mod unsigned_ucast_eq)
  have "uint w < 65536" using uint_bounded [of w] by simp
  then have "uint w div 256 < 256" by simp
  moreover have "0 \<le> uint w div 256" by (simp add: pos_imp_zdiv_nonneg_iff)
  moreover have "uint (drop_bit 8 w) = uint w div 256"
  proof -
    have "drop_bit 8 w = w div 2 ^ 8" by (rule drop_bit_eq_div)
    then have "uint (drop_bit 8 w) = uint w div uint (2 ^ 8 :: 16 word)"
      by (simp only: uint_div_distrib)
    then show ?thesis by simp
  qed
  ultimately have hi: "uint (ucast (drop_bit 8 w) :: 8 word) = uint w div 256"
    by (simp add: unsigned_ucast_eq take_bit_eq_mod)
  show ?thesis unfolding lo hi by simp
qed

text \<open>
  C4 (as the code has it). Every sample is clamped to \<open>[-1, 1]\<close>, scaled by \<open>32767\<close>
  (by \<open>32768\<close> when negative) and truncated towards zero: the typed-array store drops
  the fraction, nothing rounds to nearest. The value fits the signed 16-bit range, a
  frame of \<open>L\<close> samples gives a buffer of \<open>2 * L\<close> bytes, and each sample is its low
  byte followed by its high byte. The encoder is a total function of its input.
\<close>

theorem convertFloat32ToInt16_truncates:
  "length (array_buffer (convertFloat32ToInt16 buffer)) = 2 * length buffer \<and>
   (\<forall>i<length buffer.
      sint (convertFloat32ToInt16 buffer ! i) =
        js_trunc (let s = max (- 1) (min 1 (buffer ! i))
                  in if s < 0 then s * 32768 else s * 32767) \<and>
      uint (convertFloat32ToInt16 buffer ! i) =
        uint (array_buffer (convertFloat32ToInt16 buffer) ! (2 * i)) +
        256 * uint (array_buffer (convertFloat32ToInt16 buffer) ! (2 * i + 1)))"
proof (intro conjI allI impI)
  show "length (array_buffer (convertFloat32ToInt16 buffer)) = 2 * length buffer"
    by (simp add: length_array_buffer convertFloat32ToInt16_def)
next
  fix i assume i: "i < length buffer"
  then show "sint (convertFloat32ToInt16 buffer ! i) =
        js_trunc (let s = max (- 1) (min 1 (buffer ! i))
                  in if s < 0 then s * 32768 else s * 32767)"
    by (simp add: convertFloat32ToInt16_def sint_pcm_sample pcm_scaled_def)
next
  fix i assume i: "i < length buffer"
  then have "i < length (convertFloat32ToInt16 buffer)"
    by (simp add: convertFloat32ToInt16_def)
  from array_buffer_nth [OF this]
  show "uint (convertFloat32ToInt16 buffer ! i) =
        uint (array_buffer (convertFloat32ToInt16 buffer) ! (2 * i)) +
        256 * uint (array_buffer (convertFloat32ToInt16 buffer) ! (2 * i + 1))"
    using int16_little_endian [of "convertFloat32ToInt16 buffer ! i"] by simp
qed

theorem convertFloat32ToInt16_truncates_witness:
  "(1::nat) < length [1 / 2, - 1 :: real] \<and>
   length (array_buffer (convertFloat32ToInt16 [1 / 2, - 1])) = 4 \<and>
   sint (convertFloat32ToInt16 [1 / 2, - 1] ! 1) = - 32768"
proof -
  have i: "(1::nat) < length [1 / 2, - 1 :: real]" by simp
  have "sint (convertFloat32ToInt16 [1 / 2, - 1] ! 1) =
        js_trunc (let s = max (- 1) (min 1 ([1 / 2, - 1 :: real] ! 1))
                  in if s < 0 then s * 32768 else s * 32767)"
    using convertFloat32ToInt16_truncates [of "[1 / 2, - 1]"] i by blast
  moreover have "length (array_buffer (convertFloat32ToInt16 [1 / 2, - 1])) = 2 * length [1 / 2, - 1 :: real]"
    using convertFloat32ToInt16_truncates [of "[1 / 2, - 1]"] by blast
  ultimately show ?thesis by (simp add: js_trunc_def)
qed

text \<open>
  C4, counterexample. The sample \<open>1/2\<close> scales to \<open>16383.5\<close>: the code stores
  \<open>16383\<close>, rounding to nearest gives \<open>16384\<close>.
\<close>

theorem convertFloat32ToInt16_round_counterexample:
  "sint (convertFloat32ToInt16 [1 / 2] ! 0) = 16383 \<and> spec_pcm_sample (1 / 2) = 16384 \<and>
   sint (convertFloat32ToInt16 [1 / 2] ! 0) \<noteq> spec_pcm_sample (1 / 2)"
  by (simp add: convertFloat32ToInt16_def pcm_sample_def ToInt16_def js_trunc_def
      spec_pcm_sample_def Math_round_def)

section \<open>Round trip through the encoder\<close>

lemma pcm_roundtrip_sample:
  assumes "- 1 \<le> s" and "s \<le> 1"
  shows "\<bar>pcm_decode (pcm_sample s) - s\<bar> < 1 / 32767 \<and>
         (s < 0 \<longrightarrow> \<bar>pcm_decode (pcm_sample s) - s\<bar> < 1 / 32768)"
proof (cases "s < 0")
  case True
  have sc: "pcm_scaled s = s * 32768"
    using True assms by (simp add: pcm_scaled_def Let_def max_def min_def)
  have k: "sint (pcm_sample s) = \<lceil>s * 32768\<rceil>"
    using True by (simp add: sint_pcm_sample sc js_trunc_def mult_less_0_iff)
  have le0: "\<lceil>s * 32768\<rceil> \<le> 0"
    using True by (simp add: ceiling_le_iff mult_le_0_iff)
  have "\<bar>pcm_decode (pcm_sample s) - s\<bar> < 1 / 32768"
  proof (cases "\<lceil>s * 32768\<rceil> < 0")
    case True
    then show ?thesis unfolding pcm_decode_def k
      apply simp
      by linarith
  next
    case False
    then have z: "\<lceil>s * 32768\<rceil> = 0" using le0 by linarith
    have "- 1 < s * 32768" using z by linarith
    moreover have "pcm_decode (pcm_sample s) = 0" by (simp add: pcm_decode_def k z)
    ultimately show ?thesis using \<open>s < 0\<close> by simp
  qed
  then show ?thesis by simp
next
  case False
  have sc: "pcm_scaled s = s * 32767"
    using False assms by (simp add: pcm_scaled_def Let_def max_def min_def)
  have k: "sint (pcm_sample s) = \<lfloor>s * 32767\<rfloor>"
    using False by (simp add: sint_pcm_sample sc js_trunc_def mult_less_0_iff)
  have "0 \<le> \<lfloor>s * 32767\<rfloor>" using False by simp
  then have "\<bar>pcm_decode (pcm_sample s) - s\<bar> < 1 / 32767" unfolding pcm_decode_def k
    apply simp
    by linarith
  then show ?thesis using False by simp
qed

text \<open>
  C5 (as the code has it). For a sample in \<open>[-1, 1]\<close>, decoding the encoded value
  gives a number less than \<open>1/32767\<close> away from the sample, and less than \<open>1/32768\<close>
  away when the sample is negative. The encoder truncates, so the error of a
  non-negative sample can be almost a whole step of \<open>1/32767\<close>.
\<close>

theorem pcm_roundtrip_bound:
  assumes "i < length buffer" and "- 1 \<le> buffer ! i" and "buffer ! i \<le> 1"
  shows "\<bar>pcm_decode (convertFloat32ToInt16 buffer ! i) - buffer ! i\<bar> < 1 / 32767 \<and>
         (buffer ! i < 0 \<longrightarrow>
            \<bar>pcm_decode (convertFloat32ToInt16 buffer ! i) - buffer ! i\<bar> < 1 / 32768)"
  using pcm_roundtrip_sample [OF assms(2,3)] assms(1)
  by (simp add: convertFloat32ToInt16_def)

theorem pcm_roundtrip_bound_witness:
  "(0::nat) < length [- 1 / 3 :: real] \<and> - 1 \<le> [- 1 / 3 :: real] ! 0 \<and> [- 1 / 3 :: real] ! 0 \<le> 1 \<and>
   [- 1 / 3 :: real] ! 0 < 0 \<and>
   \<bar>pcm_decode (convertFloat32ToInt16 [- 1 / 3] ! 0) - (- 1 / 3)\<bar> < 1 / 32768"
  using pcm_roundtrip_bound [of 0 "[- 1 / 3]"] by simp

text \<open>
  C5, counterexample. The sample \<open>131075 / 2^31\<close> (a 32-bit float) scales to
  \<open>1.99998...\<close> and is stored as \<open>1\<close>; decoded with either inverse it is more than
  \<open>1/32768\<close> away from the sample.
\<close>

theorem pcm_roundtrip_counterexample:
  "- 1 \<le> (131075 / 2147483648 :: real) \<and> (131075 / 2147483648 :: real) \<le> 1 \<and>
   sint (convertFloat32ToInt16 [131075 / 2147483648] ! 0) = 1 \<and>
   \<not> \<bar>pcm_decode (convertFloat32ToInt16 [131075 / 2147483648] ! 0) - 131075 / 2147483648\<bar>
       \<le> 1 / 32768 \<and>
   \<not> \<bar>pcm_decode_sym (convertFloat32ToInt16 [131075 / 2147483648] ! 0) - 131075 / 2147483648\<bar>
       \<le> 1 / 32768"
  by (simp add: convertFloat32ToInt16_def pcm_decode_def pcm_decode_sym_def pcm_sample_def
      ToInt16_def js_trunc_def)


section \<open>Properties of the resampler\<close>

lemma powr2_int: "(2::real) powr real_of_int e = 2 powi e"
  by (rule powr_real_of_int') simp_all

lemma powr2_int_Suc: "(2::real) powr (real_of_int e + 1) = 2 powi (e + 1)"
  using powr2_int [of "e + 1"] by simp

lemma floor_log2_iff:
  "0 < x \<Longrightarrow> \<lfloor>log 2 x\<rfloor> = e \<longleftrightarrow> 2 powi e \<le> x \<and> x < 2 powi (e + 1)"
  using floor_log_eq_powr_iff [of x 2 e] by (simp only: powr2_int powr2_int_Suc)

lemma floor_log2_eq:
  assumes "2 powi e \<le> \<bar>x\<bar>" and "\<bar>x\<bar> < 2 powi (e + 1)"
  shows "\<lfloor>log 2 \<bar>x\<bar>\<rfloor> = e"
proof -
  have "(0::real) < 2 powi e" by simp
  then have pos: "0 < \<bar>x\<bar>" using assms(1) by linarith
  show ?thesis using floor_log2_iff [OF pos, of e] assms by blast
qed

lemma floor_log2_bounds:
  assumes "x \<noteq> 0"
  shows "2 powi \<lfloor>log 2 \<bar>x\<bar>\<rfloor> \<le> \<bar>x\<bar> \<and> \<bar>x\<bar> < 2 powi (\<lfloor>log 2 \<bar>x\<bar>\<rfloor> + 1)"
proof -
  have pos: "0 < \<bar>x\<bar>" using assms by simp
  show ?thesis using floor_log2_iff [OF pos, of "\<lfloor>log 2 \<bar>x\<bar>\<rfloor>"] by blast
qed

lemma fround_eval:
  assumes "2 powi e \<le> \<bar>x\<bar>" and "\<bar>x\<bar> < 2 powi (e + 1)" and "emin \<le> e"
  shows "fround p emin x = real_of_int (rne (x / 2 powi (e - int p))) * 2 powi (e - int p)"
proof -
  have "(0::real) < 2 powi e" by simp
  then have "0 < \<bar>x\<bar>" using assms(1) by linarith
  then have "x \<noteq> 0" by simp
  then show ?thesis using floor_log2_eq [OF assms(1,2)] assms(3)
    by (simp add: fround_def Let_def max_def)
qed

declare block_loop.simps [simp del]
declare downsample_loop.simps [simp del]

lemma block_loop_eq:
  "block_loop buffer i n accum count =
     (foldl (\<lambda>accum i. fl64 (accum + buffer ! nat i)) accum [i..min n (int (length buffer)) - 1],
      count + nat (min n (int (length buffer)) - i))"
proof (induction buffer i n accum count rule: block_loop.induct)
  case (1 buffer i n accum count)
  define m where "m = min n (int (length buffer))"
  show ?case
  proof (cases "i < n \<and> i < int (length buffer)")
    case True
    then have lt: "i < m" by (simp add: m_def)
    have up: "[i..m - 1] = i # [i + 1..m - 1]" using lt by (simp add: upto_rec1)
    have c: "nat (m - i) = 1 + nat (m - (i + 1))" using lt by linarith
    have step: "block_loop buffer i n accum count =
          block_loop buffer (i + 1) n (fl64 (accum + buffer ! nat i)) (count + 1)"
      using True by (subst block_loop.simps) simp
    show ?thesis
      unfolding step "1.IH" [OF True] m_def [symmetric] up using c by simp
  next
    case False
    then have ge: "m \<le> i" by (auto simp: m_def)
    then have "[i..m - 1] = []" by simp
    moreover have "nat (m - i) = 0" using ge by simp
    moreover have "block_loop buffer i n accum count = (accum, count)"
      using False by (subst block_loop.simps) auto
    ultimately show ?thesis unfolding m_def [symmetric] by simp
  qed
qed

lemma block_value:
  "(if snd (block_loop buffer lo hi 0 0) \<noteq> 0
    then fl32 (fl64 (fst (block_loop buffer lo hi 0 0) / real (snd (block_loop buffer lo hi 0 0))))
    else 0)
     = block_mean64 buffer lo hi"
proof (cases "min hi (int (length buffer)) \<le> lo")
  case True
  then show ?thesis
    by (simp add: block_loop_eq block_mean64_def Let_def)
next
  case False
  then have "real (nat (min hi (int (length buffer)) - lo)) = real_of_int (min hi (int (length buffer)) - lo)"
    by simp
  then show ?thesis using False
    by (simp add: block_loop_eq block_mean64_def block_sum64_def Let_def)
qed


lemma downsample_loop_step:
  assumes "j < length result"
  shows "downsample_loop buffer r j ob result =
     downsample_loop buffer r (j + 1) (Math_round (fl64 (real (j + 1) * r)))
       (result[j := block_mean64 buffer ob (Math_round (fl64 (real (j + 1) * r)))])"
proof -
  have "downsample_loop buffer r j ob result =
     (let nextOffsetBuffer = Math_round (fl64 (real (j + 1) * r));
          ac = block_loop buffer ob nextOffsetBuffer 0 0
      in downsample_loop buffer r (j + 1) nextOffsetBuffer
           (result[j := (if snd ac \<noteq> 0 then fl32 (fl64 (fst ac / real (snd ac))) else 0)]))"
    using assms by (subst downsample_loop.simps) (simp only: if_True)
  then show ?thesis by (simp only: Let_def block_value)
qed

lemma downsample_loop_done:
  "\<not> j < length result \<Longrightarrow> downsample_loop buffer r j ob result = result"
  by (subst downsample_loop.simps) simp

lemma length_downsample_loop:
  "length (downsample_loop buffer r j ob result) = length result"
proof (induction buffer r j ob result rule: downsample_loop.induct)
  case (1 buffer r j ob result)
  show ?case
  proof (cases "j < length result")
    case True
    have "length (downsample_loop buffer r (j + 1) (Math_round (fl64 (real (j + 1) * r)))
            (result[j := block_mean64 buffer ob (Math_round (fl64 (real (j + 1) * r)))])) =
          length (result[j := block_mean64 buffer ob (Math_round (fl64 (real (j + 1) * r)))])"
      using "1.IH" [OF True refl refl] by (simp only: block_value)
    then show ?thesis by (simp only: downsample_loop_step [OF True] length_list_update)
  next
    case False
    then show ?thesis by (simp add: downsample_loop_done)
  qed
qed

text \<open>Where block \<open>k\<close> starts: at 0 for the first, at the previous block's end after.\<close>

lemma nth_downsample_loop:
  "ob = (if j = 0 then 0 else Math_round (fl64 (real j * r))) \<Longrightarrow> k < length result \<Longrightarrow>
   downsample_loop buffer r j ob result ! k =
     (if j \<le> k
      then block_mean64 buffer (if k = 0 then 0 else Math_round (fl64 (real k * r)))
             (Math_round (fl64 (real (k + 1) * r)))
      else result ! k)"
proof (induction buffer r j ob result rule: downsample_loop.induct)
  case (1 buffer r j ob result)
  show ?case
  proof (cases "j < length result")
    case True
    let ?res = "result[j := block_mean64 buffer ob (Math_round (fl64 (real (j + 1) * r)))]"
    have k: "k < length ?res" using "1.prems" by simp
    have nb: "Math_round (fl64 (real (j + 1) * r)) =
        (if j + 1 = 0 then 0 else Math_round (fl64 (real (j + 1) * r)))" by simp
    have "Math_round (fl64 (real (j + 1) * r)) =
            (if j + 1 = 0 then 0 else Math_round (fl64 (real (j + 1) * r))) \<Longrightarrow>
          k < length ?res \<Longrightarrow>
        downsample_loop buffer r (j + 1) (Math_round (fl64 (real (j + 1) * r))) ?res ! k =
        (if j + 1 \<le> k
         then block_mean64 buffer (if k = 0 then 0 else Math_round (fl64 (real k * r)))
                (Math_round (fl64 (real (k + 1) * r)))
         else ?res ! k)"
      using "1.IH" [OF True refl refl] by (simp only: block_value)
    from this [OF nb k] have ih:
      "downsample_loop buffer r (j + 1) (Math_round (fl64 (real (j + 1) * r))) ?res ! k =
        (if j + 1 \<le> k
         then block_mean64 buffer (if k = 0 then 0 else Math_round (fl64 (real k * r)))
                (Math_round (fl64 (real (k + 1) * r)))
         else ?res ! k)" .
    show ?thesis
    proof (cases "k = j")
      case True
      have "?res ! k = block_mean64 buffer (if k = 0 then 0 else Math_round (fl64 (real k * r)))
                (Math_round (fl64 (real (k + 1) * r)))"
        using True \<open>j < length result\<close> "1.prems"(1) by simp
      then show ?thesis
        unfolding downsample_loop_step [OF \<open>j < length result\<close>] ih using True by simp
    next
      case False
      then have "?res ! k = result ! k" by simp
      then show ?thesis
        unfolding downsample_loop_step [OF \<open>j < length result\<close>] ih using False by auto
    qed
  next
    case False
    then show ?thesis using "1.prems" by (simp add: downsample_loop_done)
  qed
qed

lemma rne_bounds: "real_of_int (rne y) \<le> y + 1 / 2 \<and> y - 1 / 2 \<le> real_of_int (rne y)"
  unfolding rne_def Let_def by (auto; linarith)

lemma rne_nonneg: "0 \<le> y \<Longrightarrow> 0 \<le> rne y"
  unfolding rne_def Let_def by auto

lemma rne_le_double: "0 \<le> y \<Longrightarrow> real_of_int (rne y) \<le> 2 * y"
proof (cases "y < 1 / 2")
  case True
  assume "0 \<le> y"
  then have "\<lfloor>y\<rfloor> = 0" using True by linarith
  then show ?thesis using True \<open>0 \<le> y\<close> by (simp add: rne_def Let_def)
next
  case False
  then show ?thesis using rne_bounds [of y] by linarith
qed

lemma rne_ge_half: "1 \<le> y \<Longrightarrow> y * (1 / 2) \<le> real_of_int (rne y)"
  using rne_bounds [of y] by linarith

lemma fround_nonneg: "0 \<le> x \<Longrightarrow> 0 \<le> fround p emin x"
  by (simp add: fround_def Let_def rne_nonneg)

lemma fround_le_double:
  assumes "0 \<le> x"
  shows "fround p emin x \<le> 2 * x"
proof (cases "x = 0")
  case True
  then show ?thesis by (simp add: fround_def)
next
  case False
  define u :: real where "u = 2 powi (max \<lfloor>log 2 \<bar>x\<bar>\<rfloor> emin - int p)"
  have u: "0 < u" by (simp add: u_def)
  have "real_of_int (rne (x / u)) \<le> 2 * (x / u)"
    using assms u by (intro rne_le_double) simp
  then have "real_of_int (rne (x / u)) * u \<le> 2 * x"
    using u by (simp add: pos_le_divide_eq)
  then show ?thesis using False by (simp add: fround_def Let_def u_def)
qed

lemma fround_ge_half:
  assumes "2 powi emin \<le> x"
  shows "x / 2 \<le> fround p emin x"
proof -
  have x: "0 < x" using assms by (smt (verit) zero_less_power_int)
  define e where "e = \<lfloor>log 2 \<bar>x\<bar>\<rfloor>"
  have b: "2 powi e \<le> x" "x < 2 powi (e + 1)"
    using floor_log2_bounds [of x] x by (simp_all add: e_def)
  have "(2::real) powi emin < 2 powi (e + 1)" using assms b(2) by linarith
  then have "emin < e + 1"
    using power_int_increasing [of "e + 1" emin "2::real"] by (cases "emin < e + 1") auto
  then have me: "max e emin = e" by simp
  define u :: real where "u = 2 powi (e - int p)"
  have u: "0 < u" by (simp add: u_def)
  have "2 powi e = u * 2 ^ p" unfolding u_def by (simp add: power_int_diff)
  then have "u * 2 ^ p \<le> x" using b(1) by simp
  moreover have "u * 1 \<le> u * 2 ^ p" using u by (intro mult_left_mono) simp_all
  ultimately have "u * 1 \<le> x" by linarith
  then have y1: "1 \<le> x / u" using u by (simp add: le_divide_eq)
  define y where "y = x / u"
  have "1 \<le> y" using y1 by (simp add: y_def)
  then have "y * (1 / 2) \<le> real_of_int (rne y)" by (rule rne_ge_half)
  then have "y * (1 / 2) * u \<le> real_of_int (rne y) * u"
    using u by (intro mult_right_mono) simp_all
  moreover have "y * (1 / 2) * u = x / 2" using u by (simp add: y_def)
  ultimately have "x / 2 \<le> real_of_int (rne (x / u)) * u" by (simp add: y_def)
  then show ?thesis using x me by (simp add: fround_def Let_def u_def e_def)
qed


lemma rne_of_int: "rne (real_of_int k) = k"
  by (simp add: rne_def)

lemma fl64_0: "fl64 0 = 0"
  by (simp add: fl64_def fround_def)

lemma fl64_of_nat:
  assumes "n < 2 ^ 53"
  shows "fl64 (real n) = real n"
proof (cases "n = 0")
  case True
  then show ?thesis by (simp add: fl64_0)
next
  case False
  define e where "e = \<lfloor>log 2 \<bar>real n\<bar>\<rfloor>"
  have n: "real n \<noteq> 0" using False by simp
  have b: "2 powi e \<le> real n" "real n < 2 powi (e + 1)"
    using floor_log2_bounds [OF n] by (simp_all add: e_def)
  have "real n < real (2 ^ 53)" using assms by (simp only: of_nat_less_iff)
  then have "real n < 2 ^ 53" by simp
  then have "(2::real) powi e < 2 powi 53" using b(1) by simp
  then have e53: "e < 53"
    using power_int_increasing [of 53 e "2::real"] by (cases "e < 53") auto
  have "(1::real) \<le> real n" using False by simp
  then have "(2::real) powi 0 < 2 powi (e + 1)" using b(2) by simp
  then have e0: "0 \<le> e"
    using power_int_increasing [of "e + 1" 0 "2::real"] by (cases "0 < e + 1") auto
  have me: "max e (- 1022) = e" using e0 by simp
  define m where "m = nat (52 - e)"
  have u: "(2::real) powi (e - 52) = 1 / 2 ^ m"
    using e53 by (simp add: m_def power_int_def inverse_eq_divide power_one_over)
  have "real n / (1 / 2 ^ m) = real_of_int (int n * 2 ^ m)" by simp
  then have "rne (real n / (1 / 2 ^ m)) = int n * 2 ^ m" by (simp only: rne_of_int)
  then have r: "real_of_int (rne (real n / (1 / 2 ^ m))) * (1 / 2 ^ m) = real n" by simp
  have "fl64 (real n) =
      real_of_int (rne (real n / 2 powi (e - int 52))) * 2 powi (e - int 52)"
    unfolding fl64_def using b e0 by (intro fround_eval) simp_all
  also have "\<dots> = real_of_int (rne (real n / (1 / 2 ^ m))) * (1 / 2 ^ m)"
    using u by simp
  finally show ?thesis using r by simp
qed

lemma fl64_1: "fl64 1 = 1"
  using fl64_of_nat [of 1] by simp

lemma no_overflow64: "\<bar>x\<bar> \<le> 2 ^ 100 \<Longrightarrow> \<not> overflow64 x"
proof -
  assume a: "\<bar>x\<bar> \<le> 2 ^ 100"
  have "(2::real) ^ 970 * 2 \<le> 2 ^ 970 * 2 ^ 54" by (intro mult_left_mono) simp_all
  then have "(2::real) ^ 970 + 2 ^ 970 \<le> 2 ^ 1024" by (simp add: power_add [symmetric])
  moreover have "(2::real) ^ 100 < 2 ^ 970" by (rule power_strict_increasing) simp_all
  ultimately show ?thesis using a by (simp add: overflow64_def)
qed

lemma tiny_le: "(2::real) powi (- 1022) \<le> 1 / 2 ^ 20"
proof -
  have a: "(2::real) powi (- 1022) \<le> 2 powi (- 20)" by (rule power_int_increasing) simp_all
  have b: "(2::real) powi (- 20) = 1 / 2 ^ 20" by (simp add: power_int_minus_divide)
  from a show ?thesis unfolding b .
qed


text \<open>
  C6 (as the code has it). For sample rates from 1 Hz to \<open>2^20\<close> Hz and frames of at
  most \<open>2^24\<close> samples the resampler returns a frame. With \<open>r\<close> the quotient of the
  rates rounded to a double, its length is the double quotient \<open>L / r\<close> rounded to the
  nearest integer, halves upwards. For different rates, output sample \<open>k\<close> is the mean,
  computed in doubles and stored as a 32-bit float, of the input block from
  \<open>round (k * r)\<close> up to \<open>round ((k + 1) * r)\<close> (products rounded to doubles), cut at
  the end of the input, and it is \<open>0\<close> when that block is empty. For equal rates the
  output is the input.
\<close>

theorem downsampleBuffer_law:
  assumes "1 \<le> srcRate" and "srcRate \<le> 2 ^ 20" and "1 \<le> dstRate" and "dstRate \<le> 2 ^ 20"
    and "length buffer \<le> 2 ^ 24"
  shows "\<exists>result. downsampleBuffer buffer srcRate dstRate = Inr result \<and>
           int (length result) = round (fl64 (real (length buffer) / fl64 (srcRate / dstRate))) \<and>
           (srcRate \<noteq> dstRate \<longrightarrow>
              (\<forall>k<length result.
                 result ! k =
                   block_mean64 buffer (round (fl64 (real k * fl64 (srcRate / dstRate))))
                     (round (fl64 (real (k + 1) * fl64 (srcRate / dstRate)))))) \<and>
           (srcRate \<noteq> dstRate \<longrightarrow>
              (\<forall>k<length result.
                 min (round (fl64 (real (k + 1) * fl64 (srcRate / dstRate)))) (int (length buffer))
                   \<le> round (fl64 (real k * fl64 (srcRate / dstRate))) \<longrightarrow> result ! k = 0)) \<and>
           (srcRate = dstRate \<longrightarrow> result = buffer)"
proof -
  have main: "\<exists>result. downsampleBuffer buffer srcRate dstRate = Inr result \<and>
           int (length result) = round (fl64 (real (length buffer) / fl64 (srcRate / dstRate))) \<and>
           (srcRate \<noteq> dstRate \<longrightarrow>
              (\<forall>k<length result.
                 result ! k =
                   block_mean64 buffer (round (fl64 (real k * fl64 (srcRate / dstRate))))
                     (round (fl64 (real (k + 1) * fl64 (srcRate / dstRate)))))) \<and>
           (srcRate = dstRate \<longrightarrow> result = buffer)"
  proof (cases "dstRate = srcRate")
    case True
    have "srcRate / dstRate = 1" using True assms by simp
    moreover have "length buffer < 2 ^ 53"
    proof -
      have "(2::nat) ^ 24 < 2 ^ 53" by (rule power_strict_increasing) simp_all
      then show ?thesis using assms(5) by linarith
    qed
    ultimately have "round (fl64 (real (length buffer) / fl64 (srcRate / dstRate))) = int (length buffer)"
      by (simp add: fl64_1 fl64_of_nat)
    then show ?thesis using True by (simp add: downsampleBuffer_def)
  next
    case False
    define q where "q = srcRate / dstRate"
    define r where "r = fl64 q"
    define x where "x = fl64 (real (length buffer) / r)"
    define n where "n = Math_round x"
    have d0: "dstRate \<noteq> 0" and dpos: "0 < dstRate" using assms(3) by simp_all
    have qlo: "1 / 2 ^ 20 \<le> q"
    proof -
      have "dstRate * (1 / 2 ^ 20) \<le> 2 ^ 20 * (1 / 2 ^ 20)"
        using assms(4) by (intro mult_right_mono) simp_all
      then have "dstRate * (1 / 2 ^ 20) \<le> srcRate" using assms(1) by simp
      then show ?thesis using dpos by (simp add: q_def pos_le_divide_eq mult.commute)
    qed
    have qhi: "q \<le> 2 ^ 20"
    proof -
      have "srcRate \<le> 2 ^ 20 * 1" using assms(2) by simp
      also have "\<dots> \<le> 2 ^ 20 * dstRate" using assms(3) by (intro mult_left_mono) simp_all
      finally show ?thesis using dpos by (simp add: q_def pos_divide_le_eq)
    qed
    have qpos: "0 < q" using qlo by (smt (verit) divide_pos_pos zero_less_power)
    have "\<bar>q\<bar> \<le> 2 ^ 100"
    proof -
      have "(2::real) ^ 20 \<le> 2 ^ 100" by (rule power_increasing) simp_all
      then show ?thesis using qhi qpos by simp
    qed
    then have noq: "\<not> overflow64 q" by (rule no_overflow64)
    have "2 powi (- 1022) \<le> q" using tiny_le qlo by (rule order_trans)
    then have rlo: "q / 2 \<le> r" unfolding r_def fl64_def by (rule fround_ge_half)
    have rhi: "r \<le> 2 * q" unfolding r_def fl64_def using qpos by (intro fround_le_double) simp
    have rpos: "0 < r" using rlo qpos by linarith
    have r21: "1 / 2 ^ 21 \<le> r" using rlo qlo by simp
    define L where "L = real (length buffer)"
    have L0: "0 \<le> L" and L24: "L \<le> 2 ^ 24" using assms(5) by (simp_all add: L_def)
    have q2lo: "0 \<le> L / r" using L0 rpos by simp
    have q2hi: "L / r \<le> 2 ^ 45"
    proof -
      have "L * 1 \<le> 2 ^ 24 * (2 ^ 21 * r)"
        using L24 L0 r21 rpos by (intro mult_mono) (simp_all add: pos_divide_le_eq mult.commute)
      then have "L \<le> 2 ^ 45 * r" by simp
      then show ?thesis using rpos by (simp add: pos_divide_le_eq)
    qed
    have "\<bar>L / r\<bar> \<le> 2 ^ 100"
    proof -
      have "(2::real) ^ 45 \<le> 2 ^ 100" by (rule power_increasing) simp_all
      then show ?thesis using q2lo q2hi by simp
    qed
    then have noq2: "\<not> overflow64 (L / r)" by (rule no_overflow64)
    have x0: "0 \<le> x" unfolding x_def fl64_def L_def [symmetric] using q2lo by (rule fround_nonneg)
    have xhi: "x \<le> 2 ^ 46"
    proof -
      have "x \<le> 2 * (L / r)" unfolding x_def fl64_def L_def [symmetric]
        using q2lo by (rule fround_le_double)
      then show ?thesis using q2hi by simp
    qed
    have n0: "0 \<le> n" unfolding n_def Math_round_def using x0 by linarith
    have nhi: "n \<le> 2 ^ 53 - 1"
    proof -
      have "n \<le> 2 ^ 46 + 1" unfolding n_def Math_round_def using xhi by (simp add: floor_le_iff)
      moreover have "(2::int) ^ 46 + 1 \<le> 2 ^ 53 - 1" by simp
      ultimately show ?thesis by linarith
    qed
    have eq: "downsampleBuffer buffer srcRate dstRate =
        Inr (downsample_loop buffer r 0 0 (replicate (nat n) 0))"
    proof -
      have f1: "\<not> overflow64 (srcRate / dstRate)" using noq by (simp add: q_def)
      have f2: "fl64 (srcRate / dstRate) \<noteq> 0" using rpos by (simp add: r_def q_def)
      have f3: "\<not> overflow64 (real (length buffer) / fl64 (srcRate / dstRate))"
        using noq2 by (simp add: L_def r_def q_def)
      have f4: "\<not> (Math_round (fl64 (real (length buffer) / fl64 (srcRate / dstRate))) < 0 \<or>
           Math_round (fl64 (real (length buffer) / fl64 (srcRate / dstRate))) > 2 ^ 53 - 1)"
        using n0 nhi by (simp add: n_def x_def L_def r_def q_def)
      show ?thesis
        unfolding downsampleBuffer_def Let_def
        using False d0 f1 f2 f3 f4 by (simp add: n_def x_def L_def r_def q_def)
    qed
    have len: "int (length (downsample_loop buffer r 0 0 (replicate (nat n) 0))) = round x"
      using n0 by (simp add: length_downsample_loop n_def Math_round_def round_def)
    have z: "(0::int) = (if (0::nat) = 0 then 0 else Math_round (fl64 (real (0::nat) * r)))" by simp
    have nth: "downsample_loop buffer r 0 0 (replicate (nat n) 0) ! k =
         block_mean64 buffer (round (fl64 (real k * r))) (round (fl64 (real (k + 1) * r)))"
      if "k < length (downsample_loop buffer r 0 0 (replicate (nat n) 0))" for k
    proof -
      have k: "k < length (replicate (nat n) (0::real))" using that by (simp add: length_downsample_loop)
      have "(if k = 0 then 0 else Math_round (fl64 (real k * r))) = round (fl64 (real k * r))"
        by (simp add: fl64_0 Math_round_def round_def)
      moreover have "Math_round (fl64 (real (k + 1) * r)) = round (fl64 (real (k + 1) * r))"
        by (simp add: Math_round_def round_def)
      ultimately show ?thesis using nth_downsample_loop [OF z k, of buffer] by simp
    qed
    let ?res = "downsample_loop buffer r 0 0 (replicate (nat n) 0)"
    have c1: "int (length ?res) = round (fl64 (real (length buffer) / r))"
      using len unfolding x_def L_def .
    have c2: "srcRate \<noteq> dstRate \<longrightarrow>
        (\<forall>k<length ?res. ?res ! k =
           block_mean64 buffer (round (fl64 (real k * r))) (round (fl64 (real (k + 1) * r))))"
      using nth by (intro impI allI) simp
    have c3: "srcRate = dstRate \<longrightarrow> ?res = buffer" using False by simp
    show ?thesis
      unfolding eq q_def [symmetric] r_def [symmetric]
      by (rule exI [of _ ?res]) (intro conjI refl c1 c2 c3)
  qed
  have empty: "block_mean64 buffer lo hi = 0" if "min hi (int (length buffer)) \<le> lo" for lo hi
    using that by (simp add: block_mean64_def Let_def)
  from main obtain result where res: "downsampleBuffer buffer srcRate dstRate = Inr result"
    and len: "int (length result) = round (fl64 (real (length buffer) / fl64 (srcRate / dstRate)))"
    and nth: "srcRate \<noteq> dstRate \<longrightarrow>
              (\<forall>k<length result.
                 result ! k =
                   block_mean64 buffer (round (fl64 (real k * fl64 (srcRate / dstRate))))
                     (round (fl64 (real (k + 1) * fl64 (srcRate / dstRate)))))"
    and same: "srcRate = dstRate \<longrightarrow> result = buffer"
    by blast
  have "srcRate \<noteq> dstRate \<longrightarrow>
              (\<forall>k<length result.
                 min (round (fl64 (real (k + 1) * fl64 (srcRate / dstRate)))) (int (length buffer))
                   \<le> round (fl64 (real k * fl64 (srcRate / dstRate))) \<longrightarrow> result ! k = 0)"
    using nth empty by simp
  with res len nth same show ?thesis by blast
qed


lemmas fl64_evals =
  fround_eval [of "- 1" _ "- 1022" 52] fround_eval [of 0 _ "- 1022" 52]
  fround_eval [of 1 _ "- 1022" 52] fround_eval [of 2 _ "- 1022" 52]
  fround_eval [of 3 _ "- 1022" 52] fround_eval [of 4 _ "- 1022" 52]
  fround_eval [of 5 _ "- 1022" 52] fround_eval [of 6 _ "- 1022" 52]

lemmas fl32_evals =
  fround_eval [of "- 1" _ "- 126" 23] fround_eval [of 0 _ "- 126" 23]
  fround_eval [of 1 _ "- 126" 23] fround_eval [of 2 _ "- 126" 23]
  fround_eval [of 3 _ "- 126" 23]

text \<open>Fifteen blocks at 65600 Hz: the product is just below 61.5 in doubles.\<close>

lemma offset_example: "Math_round (fl64 (15 * fl64 (65600 / 16000))) = 61"
  by (simp add: fl64_def fl64_evals rne_def Math_round_def)

lemma not_overflow64: "\<bar>x\<bar> \<le> 2 ^ 100 \<Longrightarrow> overflow64 x = False"
  using no_overflow64 [of x] by simp

lemma downsampleBuffer_third: "downsampleBuffer [1, 1, 2] 48000 16000 = Inr [11184811 / 2 ^ 23]"
  by (simp add: downsampleBuffer_def not_overflow64 fl64_def fl32_def fl64_evals fl32_evals rne_def
      Math_round_def downsample_loop.simps block_loop.simps Let_def)

text \<open>Halving the rate of a four-sample frame: the means of the two pairs.\<close>

lemma downsampleBuffer_example: "downsampleBuffer [1, 3, 5, 7] 32000 16000 = Inr [2, 6]"
  by (simp add: downsampleBuffer_def not_overflow64 fl64_def fl32_def fl64_evals fl32_evals rne_def
      Math_round_def downsample_loop.simps block_loop.simps Let_def numeral_2_eq_2)

lemma downsampleBuffer_length_33: "map_sum id length (downsampleBuffer (replicate 33 0) 70400 16000) = Inr 7"
  by (simp add: downsampleBuffer_def not_overflow64 fl64_def fl64_evals rne_def
      Math_round_def Let_def length_downsample_loop)

lemma int_interval_3: "{0..<3::int} = {0, 1, 2}"
  by auto

lemma spec_values: "spec_length 33 70400 16000 = 8" "block_mean [1, 1, 2] 0 3 = 4 / 3"
  by (simp_all add: spec_length_def round_def block_mean_def Let_def int_interval_3)


theorem downsampleBuffer_law_witness:
  "(1::real) \<le> 48000 \<and> (48000::real) \<le> 2 ^ 20 \<and> (1::real) \<le> 16000 \<and> (16000::real) \<le> 2 ^ 20 \<and>
   length [1, 1, 2 :: real] \<le> 2 ^ 24 \<and>
   downsampleBuffer [1, 1, 2] 48000 16000 = Inr [11184811 / 8388608] \<and>
   (1::real) \<le> 70400 \<and> (70400::real) \<le> 2 ^ 20 \<and> length (replicate 33 (0::real)) \<le> 2 ^ 24 \<and>
   map_sum id length (downsampleBuffer (replicate 33 0) 70400 16000) = Inr 7"
proof -
  have h: "(1::real) \<le> 48000" "(48000::real) \<le> 2 ^ 20" "(1::real) \<le> 16000" "(16000::real) \<le> 2 ^ 20"
    "length [1, 1, 2 :: real] \<le> 2 ^ 24" by simp_all
  have g: "(1::real) \<le> 70400" "(70400::real) \<le> 2 ^ 20" "length (replicate 33 (0::real)) \<le> 2 ^ 24"
    by simp_all
  have r: "fl64 (48000 / 16000) = 3" by (simp add: fl64_def fl64_evals rne_def)
  have l1: "round (fl64 (real (length [1, 1, 2 :: real]) / fl64 (48000 / 16000))) = 1"
    unfolding r by (simp add: fl64_def fl64_evals rne_def round_def)
  have b0: "round (fl64 (real (0::nat) * fl64 (48000 / 16000))) = 0"
    unfolding r by (simp add: fl64_0)
  have b1: "round (fl64 (real ((0::nat) + 1) * fl64 (48000 / 16000))) = 3"
    unfolding r by (simp add: fl64_def fl64_evals rne_def round_def)
  have up: "[0..2::int] = [0, 1, 2]" by (simp add: upto_rec1)
  have m: "block_mean64 [1, 1, 2] 0 3 = 11184811 / 8388608"
    by (simp add: block_mean64_def block_sum64_def Let_def up fl64_def fl32_def fl64_evals
        fl32_evals rne_def)
  from downsampleBuffer_law [OF h]
  obtain result where res: "downsampleBuffer [1, 1, 2] 48000 16000 = Inr result"
    and len: "int (length result) = round (fl64 (real (length [1, 1, 2 :: real]) / fl64 (48000 / 16000)))"
    and nth: "\<forall>k<length result.
                 result ! k =
                   block_mean64 [1, 1, 2] (round (fl64 (real k * fl64 (48000 / 16000))))
                     (round (fl64 (real (k + 1) * fl64 (48000 / 16000))))"
    by auto
  have len1: "length result = 1" using len unfolding l1 by simp
  then have "result ! 0 = block_mean64 [1, 1, 2] (round (fl64 (real (0::nat) * fl64 (48000 / 16000))))
                     (round (fl64 (real ((0::nat) + 1) * fl64 (48000 / 16000))))"
    using nth by simp
  then have "result ! 0 = 11184811 / 8388608" unfolding b0 b1 m .
  then have first: "result = [11184811 / 8388608]"
    using len1 by (cases result) simp_all
  have l2: "round (fl64 (real (length (replicate 33 (0::real))) / fl64 (70400 / 16000))) = 7"
    by (simp add: fl64_def fl64_evals rne_def round_def)
  from downsampleBuffer_law [OF g(1,2) h(3,4) g(3)]
  obtain result2 where res2: "downsampleBuffer (replicate 33 0) 70400 16000 = Inr result2"
    and len2: "int (length result2) =
       round (fl64 (real (length (replicate 33 (0::real))) / fl64 (70400 / 16000)))"
    by auto
  have second: "map_sum id length (downsampleBuffer (replicate 33 0) 70400 16000) = Inr 7"
    using len2 unfolding l2 res2 by simp
  from h g res first second show ?thesis by simp
qed

text \<open>
  C6, counterexample. 33 samples at 70400 Hz give 7 output samples: the ratio rounds to
  a double just above 4.4 and the quotient to one just below 7.5, where the exact
  quotient 7.5 rounds to 8. The three samples 1, 1, 2 at 48000 Hz give the 32-bit float
  next to 4/3, not 4/3.
\<close>

theorem downsampleBuffer_exact_counterexample:
  "map_sum id length (downsampleBuffer (replicate 33 0) 70400 16000) = Inr 7 \<and>
   spec_length 33 70400 16000 = 8 \<and>
   downsampleBuffer [1, 1, 2] 48000 16000 = Inr [11184811 / 8388608] \<and>
   block_mean [1, 1, 2] 0 3 = 4 / 3"
  using downsampleBuffer_third downsampleBuffer_length_33 spec_values by simp


section \<open>Properties of the transport\<close>

lemma attemptReconnect_below:
  "reconnectAttempts p < 5 \<Longrightarrow>
   attemptReconnect p =
     p\<lparr>reconnectAttempts := reconnectAttempts p + 1,
       timers := timers p @ [min (1000 * 2 ^ (reconnectAttempts p + 1)) 10000]\<rparr>"
  by (simp add: attemptReconnect_def maxReconnectAttempts_def Let_def)

lemma attemptReconnect_limit:
  "\<not> reconnectAttempts p < 5 \<Longrightarrow>
   attemptReconnect p =
     call_onError ''Lost connection to Deepgram service and could not reconnect''
       (p\<lparr>console_errors := console_errors p @ [''[Deepgram] Max reconnection attempts reached'']\<rparr>)"
  by (simp add: attemptReconnect_def maxReconnectAttempts_def)

lemma failed_attempt_below:
  assumes "timers q = [d]" and "reconnectAttempts q < 5"
  shows "timers (failed_attempt q) = [min (1000 * 2 ^ (reconnectAttempts q + 1)) 10000] \<and>
         reconnectAttempts (failed_attempt q) = reconnectAttempts q + 1 \<and>
         length (sockets (failed_attempt q)) = length (sockets q) + 1 \<and>
         onError_set (failed_attempt q) = onError_set q"
  using assms
  by (simp add: failed_attempt_def initialize_def ws_onerror_def ws_onclose_def call_onError_def
      attemptReconnect_below Let_def)

lemma failed_attempt_limit:
  assumes "timers q = [d]" and "\<not> reconnectAttempts q < 5"
  shows "timers (failed_attempt q) = [] \<and>
         reconnectAttempts (failed_attempt q) = reconnectAttempts q \<and>
         length (sockets (failed_attempt q)) = length (sockets q) + 1 \<and>
         onError_set (failed_attempt q) = onError_set q \<and>
         ws (failed_attempt q) = Some (length (sockets q)) \<and>
         sockets (failed_attempt q) ! length (sockets q) = CLOSED \<and>
         last (console_errors (failed_attempt q)) = ''[Deepgram] Max reconnection attempts reached'' \<and>
         (onError_set q \<longrightarrow>
            last (reported (failed_attempt q)) = ''Lost connection to Deepgram service and could not reconnect'')"
  using assms
  by (simp add: failed_attempt_def initialize_def ws_onerror_def ws_onclose_def call_onError_def
      attemptReconnect_limit Let_def)

lemma failed_attempt_idle:
  assumes "timers q = []" and "ws q = Some k" and "k < length (sockets q)" and "sockets q ! k = CLOSED"
  shows "failed_attempt q = q"
  using assms by (simp add: failed_attempt_def)


lemma connection_lost:
  assumes "k < length (sockets p)" and "sockets p ! k \<noteq> CLOSED"
    and "reconnectAttempts p = 0" and "timers p = []"
  shows "reconnectAttempts (deliver (SocketCloses k) p) = 1 \<and>
         timers (deliver (SocketCloses k) p) = [2000] \<and>
         length (sockets (deliver (SocketCloses k) p)) = length (sockets p) \<and>
         onError_set (deliver (SocketCloses k) p) = onError_set p"
  using assms by (simp add: ws_onclose_def attemptReconnect_below)

lemma retries_below:
  assumes "reconnectAttempts q = 1" and "timers q = [2000]"
  shows "n < 5 \<Longrightarrow>
         reconnectAttempts ((failed_attempt ^^ n) q) = n + 1 \<and>
         timers ((failed_attempt ^^ n) q) = [min (1000 * 2 ^ (n + 1)) 10000] \<and>
         length (sockets ((failed_attempt ^^ n) q)) = length (sockets q) + n \<and>
         onError_set ((failed_attempt ^^ n) q) = onError_set q"
proof (induction n)
  case 0
  then show ?case using assms by simp
next
  case (Suc n)
  then have n: "n < 5" by simp
  let ?q = "(failed_attempt ^^ n) q"
  from Suc.IH [OF n] have a: "reconnectAttempts ?q = n + 1"
    and t: "timers ?q = [min (1000 * 2 ^ (n + 1)) 10000]"
    and l: "length (sockets ?q) = length (sockets q) + n"
    and e: "onError_set ?q = onError_set q" by simp_all
  have "reconnectAttempts ?q < 5" using a Suc.prems by simp
  from failed_attempt_below [OF t this] show ?case using a l e by simp
qed

lemma retries_exhausted:
  assumes "reconnectAttempts q = 1" and "timers q = [2000]"
  shows "timers ((failed_attempt ^^ 5) q) = [] \<and>
         reconnectAttempts ((failed_attempt ^^ 5) q) = 5 \<and>
         length (sockets ((failed_attempt ^^ 5) q)) = length (sockets q) + 5 \<and>
         ws ((failed_attempt ^^ 5) q) = Some (length (sockets q) + 4) \<and>
         sockets ((failed_attempt ^^ 5) q) ! (length (sockets q) + 4) = CLOSED \<and>
         last (console_errors ((failed_attempt ^^ 5) q)) = ''[Deepgram] Max reconnection attempts reached'' \<and>
         (onError_set q \<longrightarrow>
            last (reported ((failed_attempt ^^ 5) q)) = ''Lost connection to Deepgram service and could not reconnect'')"
proof -
  let ?q = "(failed_attempt ^^ 4) q"
  from retries_below [OF assms, of 4] have a: "reconnectAttempts ?q = 5"
    and t: "timers ?q = [min (1000 * 2 ^ (4 + 1)) 10000]"
    and l: "length (sockets ?q) = length (sockets q) + 4"
    and e: "onError_set ?q = onError_set q" by simp_all
  have "\<not> reconnectAttempts ?q < 5" using a by simp
  from failed_attempt_limit [OF t this]
  have "timers (failed_attempt ?q) = [] \<and>
         reconnectAttempts (failed_attempt ?q) = 5 \<and>
         length (sockets (failed_attempt ?q)) = length (sockets q) + 5 \<and>
         ws (failed_attempt ?q) = Some (length (sockets q) + 4) \<and>
         sockets (failed_attempt ?q) ! (length (sockets q) + 4) = CLOSED \<and>
         last (console_errors (failed_attempt ?q)) = ''[Deepgram] Max reconnection attempts reached'' \<and>
         (onError_set q \<longrightarrow>
            last (reported (failed_attempt ?q)) = ''Lost connection to Deepgram service and could not reconnect'')"
    using a l e by simp
  moreover have "(failed_attempt ^^ 5) q = failed_attempt ?q"
    by (simp add: numeral_eq_Suc)
  ultimately show ?thesis by simp
qed

lemma retries_stop:
  assumes "reconnectAttempts q = 1" and "timers q = [2000]"
  shows "(failed_attempt ^^ (5 + m)) q = (failed_attempt ^^ 5) q"
proof (induction m)
  case 0
  show ?case by simp
next
  case (Suc m)
  let ?q = "(failed_attempt ^^ 5) q"
  from retries_exhausted [OF assms] have "failed_attempt ?q = ?q"
    by (intro failed_attempt_idle [of ?q "length (sockets q) + 4"]) simp_all
  moreover have "(failed_attempt ^^ (5 + Suc m)) q = failed_attempt ((failed_attempt ^^ (5 + m)) q)"
    by (simp only: add_Suc_right funpow.simps o_apply)
  ultimately show ?case using Suc by (simp only:)
qed


text \<open>
  C7. A connection is lost (its socket closes) with the attempt counter at \<open>0\<close> and
  no timer pending; every reconnect then fails at once. The retry before failure
  \<open>n + 1\<close> is scheduled with delay \<open>min (1000 * 2 ^ (n + 1)) 10000\<close>: 2000, 4000, 8000,
  10000, 10000 milliseconds. After the fifth failed attempt nothing is scheduled any
  more and no further socket is made, the console gets the fatal message and so does
  the error callback when there is one. A socket that opens sets the counter to \<open>0\<close>.
\<close>

theorem reconnect_backoff:
  assumes "k < length (sockets p)" and "sockets p ! k \<noteq> CLOSED"
    and "reconnectAttempts p = 0" and "timers p = []"
  shows "(\<forall>n<5. timers ((failed_attempt ^^ n) (deliver (SocketCloses k) p))
                   = [min (1000 * 2 ^ (n + 1)) 10000]) \<and>
         map (\<lambda>n. timers ((failed_attempt ^^ n) (deliver (SocketCloses k) p))) [0, 1, 2, 3, 4]
           = [[2000], [4000], [8000], [10000], [10000]] \<and>
         (\<forall>n\<ge>5. timers ((failed_attempt ^^ n) (deliver (SocketCloses k) p)) = [] \<and>
                 length (sockets ((failed_attempt ^^ n) (deliver (SocketCloses k) p)))
                   = length (sockets p) + 5 \<and>
                 last (console_errors ((failed_attempt ^^ n) (deliver (SocketCloses k) p)))
                   = ''[Deepgram] Max reconnection attempts reached'' \<and>
                 (onError_set p \<longrightarrow>
                    last (reported ((failed_attempt ^^ n) (deliver (SocketCloses k) p)))
                      = ''Lost connection to Deepgram service and could not reconnect'')) \<and>
         (\<forall>q j. j < length (sockets q) \<and> sockets q ! j = CONNECTING \<longrightarrow>
                  reconnectAttempts (deliver (SocketOpens j) q) = 0)"
proof -
  let ?lost = "deliver (SocketCloses k) p"
  from connection_lost [OF assms] have a: "reconnectAttempts ?lost = 1"
    and t: "timers ?lost = [2000]"
    and l: "length (sockets ?lost) = length (sockets p)"
    and e: "onError_set ?lost = onError_set p" by simp_all
  have below: "\<forall>n<5. timers ((failed_attempt ^^ n) ?lost) = [min (1000 * 2 ^ (n + 1)) 10000]"
    using retries_below [OF a t] by blast
  have listed: "map (\<lambda>n. timers ((failed_attempt ^^ n) ?lost)) [0, 1, 2, 3, 4]
           = [[2000], [4000], [8000], [10000], [10000]]"
    using retries_below [OF a t, of 0] retries_below [OF a t, of 1] retries_below [OF a t, of 2]
      retries_below [OF a t, of 3] retries_below [OF a t, of 4]
    by simp
  have after: "timers ((failed_attempt ^^ n) ?lost) = [] \<and>
                 length (sockets ((failed_attempt ^^ n) ?lost)) = length (sockets p) + 5 \<and>
                 last (console_errors ((failed_attempt ^^ n) ?lost))
                   = ''[Deepgram] Max reconnection attempts reached'' \<and>
                 (onError_set p \<longrightarrow>
                    last (reported ((failed_attempt ^^ n) ?lost))
                      = ''Lost connection to Deepgram service and could not reconnect'')"
    if "5 \<le> n" for n
  proof -
    from that obtain m where n: "n = 5 + m" using le_Suc_ex by blast
    show ?thesis unfolding n retries_stop [OF a t]
      using retries_exhausted [OF a t] l e by simp
  qed
  have opens: "\<forall>q j. j < length (sockets q) \<and> sockets q ! j = CONNECTING \<longrightarrow>
                  reconnectAttempts (deliver (SocketOpens j) q) = 0"
    by (simp add: ws_onopen_def)
  from below listed after opens show ?thesis by blast
qed


lemma started_session_eq:
  "started_session = \<lparr>ws = Some 0, sockets = [OPEN], isListening = True, onTranscript_set = True,
     onError_set = True, reconnectAttempts = 0, timers = [], reported = [],
     console_errors = [], transcripts = []\<rparr>"
  by (simp add: started_session_def new_provider_def initialize_def ws_onopen_def)

theorem reconnect_backoff_witness:
  "0 < length (sockets started_session) \<and> sockets started_session ! 0 \<noteq> CLOSED \<and>
   reconnectAttempts started_session = 0 \<and> timers started_session = [] \<and>
   timers ((failed_attempt ^^ 2) (deliver (SocketCloses 0) started_session)) = [8000] \<and>
   timers ((failed_attempt ^^ 5) (deliver (SocketCloses 0) started_session)) = [] \<and>
   length (sockets ((failed_attempt ^^ 7) (deliver (SocketCloses 0) started_session))) = 6 \<and>
   last (reported ((failed_attempt ^^ 5) (deliver (SocketCloses 0) started_session)))
     = ''Lost connection to Deepgram service and could not reconnect''"
proof -
  have h: "0 < length (sockets started_session)" "sockets started_session ! 0 \<noteq> CLOSED"
    "reconnectAttempts started_session = 0" "timers started_session = []"
    by (simp_all add: started_session_eq)
  have e: "onError_set started_session" "length (sockets started_session) = 1"
    by (simp_all add: started_session_eq)
  from reconnect_backoff [OF h] e h show ?thesis by simp
qed

text \<open>
  C8, the code at a running session. \<^verbatim>\<open>disconnect\<close> closes the socket and forgets
  it, but the socket keeps its \<^verbatim>\<open>onclose\<close> handler: when its close event arrives
  the handler runs \<^verbatim>\<open>attemptReconnect\<close>, a retry is scheduled after 2000 ms, and
  the timer opens a new connection.
\<close>

theorem disconnect_reconnects:
  "ws (disconnect started_session) = None \<and>
   sockets (disconnect started_session) = [CLOSING] \<and>
   timers (deliver (SocketCloses 0) (disconnect started_session)) = [2000] \<and>
   reconnectAttempts (deliver (SocketCloses 0) (disconnect started_session)) = 1 \<and>
   ws (deliver_all [SocketCloses 0, TimerFires] (disconnect started_session)) = Some 1 \<and>
   sockets (deliver_all [SocketCloses 0, TimerFires] (disconnect started_session)) = [CLOSED, CONNECTING]"
  by (simp add: started_session_eq disconnect_def ws_close_def ws_onclose_def attemptReconnect_below
      initialize_def)

text \<open>
  C9 (as the code has it). A transcript message whose text is not empty is given to the
  registered transcript callback once, with that text and with the final flag read as a
  boolean (absent means not final). A transcript message with an empty or absent text
  changes nothing: it is not forwarded. The AssemblyAI handler forwards the text of a
  \<open>Transcript\<close> as not final and of a \<open>FinalTranscript\<close> as final.
\<close>

theorem handleMessage_forwards:
  "(msg_type m = ''transcript'' \<and> msg_text m = Some t \<and> t \<noteq> [] \<and> onTranscript_set p \<longrightarrow>
      transcripts (handleMessage (Some m) p) = transcripts p @ [(t, msg_isFinal m = Some True)]) \<and>
   (msg_type m = ''transcript'' \<and> (msg_text m = None \<or> msg_text m = Some []) \<longrightarrow>
      handleMessage (Some m) p = p) \<and>
   (message_type a = ''Transcript'' \<and> transcript a = Some t \<and> t \<noteq> [] \<and> onTranscript_set p \<longrightarrow>
      transcripts (handleMessage_assemblyai (Some a) p) = transcripts p @ [(t, False)]) \<and>
   (message_type a = ''FinalTranscript'' \<and> transcript a = Some t \<and> t \<noteq> [] \<and> onTranscript_set p \<longrightarrow>
      transcripts (handleMessage_assemblyai (Some a) p) = transcripts p @ [(t, True)])"
  by (cases "msg_isFinal m")
     (auto simp: handleMessage_def handleMessage_assemblyai_def truthy_string_def truthy_bool_def)

theorem handleMessage_forwards_witness:
  "onTranscript_set started_session \<and>
   transcripts (handleMessage (Some \<lparr>msg_type = ''transcript'', msg_text = Some ''hello'',
      msg_isFinal = None, msg_message = None\<rparr>) started_session) = [(''hello'', False)] \<and>
   transcripts (handleMessage_assemblyai (Some \<lparr>message_type = ''FinalTranscript'',
      transcript = Some ''hello'', aai_message = None\<rparr>) started_session) = [(''hello'', True)]"
  using handleMessage_forwards [of "\<lparr>msg_type = ''transcript'', msg_text = Some ''hello'',
      msg_isFinal = None, msg_message = None\<rparr>" "''hello''" started_session
      "\<lparr>message_type = ''FinalTranscript'', transcript = Some ''hello'', aai_message = None\<rparr>"]
  by (simp add: started_session_eq)

text \<open>
  C9, counterexample. A final transcript event with the empty text reaches a provider
  with a registered callback: the callback is not called.
\<close>

theorem handleMessage_empty_text_counterexample:
  "onTranscript_set started_session \<and>
   transcripts (handleMessage (Some \<lparr>msg_type = ''transcript'', msg_text = Some '''',
      msg_isFinal = Some True, msg_message = None\<rparr>) started_session) = [] \<and>
   transcripts (handleMessage (Some \<lparr>msg_type = ''transcript'', msg_text = Some '''',
      msg_isFinal = Some True, msg_message = None\<rparr>) started_session) \<noteq> [('''', True)]"
  by (simp add: started_session_eq handleMessage_def truthy_string_def)


section \<open>Properties of the voice-activity gate\<close>

lemma sqrt_threshold: "sqrt (1 / 10000) = 1 / 100"
  by (rule real_sqrt_unique) (simp_all add: power2_eq_square)

lemma frame_rms_loud_iff:
  "frame_rms down \<ge> vadThreshold \<longleftrightarrow> (\<Sum>v\<leftarrow>down. v * v) / real (length down) \<ge> 1 / 10000"
proof -
  have "frame_rms down \<ge> vadThreshold \<longleftrightarrow>
        sqrt (1 / 10000) \<le> sqrt ((\<Sum>v\<leftarrow>down. v * v) / real (length down))"
    unfolding frame_rms_def vadThreshold_def sqrt_threshold ..
  then show ?thesis by (simp only: real_sqrt_le_iff)
qed

lemma downsample_same_rate: "downsampleBuffer f dstRate16k dstRate16k = Inr f"
  by (simp add: downsampleBuffer_def)

text \<open>The handler when the audio context runs at 16 kHz: no resampling.\<close>

lemma vad_onmessage_16k:
  "vad_onmessage dstRate16k ws_open st float32 now =
     (let pcm16 = convertFloat32ToInt16 float32;
          frames = push_preRoll (preRollFrames st) pcm16
      in if (\<Sum>v\<leftarrow>float32. v * v) / real (length float32) \<ge> 1 / 10000
         then (st\<lparr>preRollFrames := [], inSpeech := True, lastSpeechTs := now\<rparr>,
               flush_preRoll ws_open frames @ (if ws_open then [array_buffer pcm16] else []))
         else if inSpeech st
           then (if now - lastSpeechTs st \<le> hangoverMs
                 then (st\<lparr>preRollFrames := frames\<rparr>, if ws_open then [array_buffer pcm16] else [])
                 else (st\<lparr>preRollFrames := frames, inSpeech := False\<rparr>, []))
           else (st\<lparr>preRollFrames := frames\<rparr>, []))"
  by (simp add: vad_onmessage_def downsample_same_rate frame_rms_loud_iff Let_def)

lemma pcm_of_quiet: "convertFloat32ToInt16 [0] = [0]" "convertFloat32ToInt16 [1] = [32767]"
  by (simp_all add: convertFloat32ToInt16_def pcm_sample_def ToInt16_def js_trunc_def)



lemma flush_preRoll_open: "flush_preRoll True frames = map array_buffer frames"
  by (induction frames) simp_all

lemma lastn_lastn_append: "lastn n (lastn n xs @ ys) = lastn n (xs @ ys)"
proof (cases "length xs \<le> n")
  case True
  then show ?thesis by (simp add: lastn_def)
next
  case False
  then have l: "length (drop (length xs - n) xs) = n" by simp
  show ?thesis
  proof (cases "length ys \<le> n")
    case True
    have "length xs - n + length ys = length xs + length ys - n" using False by simp
    then show ?thesis using False True by (simp add: lastn_def add.commute)
  next
    case False
    then show ?thesis using \<open>\<not> length xs \<le> n\<close> by (simp add: lastn_def)
  qed
qed

lemma length_lastn: "length (lastn n xs) \<le> n"
  by (simp add: lastn_def)

lemma lastn_snoc: "lastn (Suc n) (xs @ [x]) = lastn n xs @ [x]"
  by (cases "length xs \<le> n") (simp_all add: lastn_def Suc_diff_le not_le)

lemma push_preRoll_last:
  assumes "length frames \<le> 8"
  shows "push_preRoll frames x = lastn 8 (frames @ [x])"
proof (cases "length frames = 8")
  case True
  then obtain y ys where "frames = y # ys" by (cases frames) auto
  then show ?thesis using True
    by (simp add: push_preRoll_def maxPreRoll_def Let_def lastn_def)
next
  case False
  then have "length frames < 8" using assms by simp
  then show ?thesis by (simp add: push_preRoll_def maxPreRoll_def Let_def lastn_def)
qed

lemma quiet_iff: "quiet f \<longleftrightarrow> \<not> (\<Sum>v\<leftarrow>f. v * v) / real (length f) \<ge> 1 / 10000"
  unfolding quiet_def frame_rms_loud_iff [symmetric] by (simp only: not_le)

lemma vad_quiet_run:
  assumes "\<not> inSpeech st" and "length (preRollFrames st) \<le> 8"
    and "\<forall>ft\<in>set qs. quiet (fst ft)"
  shows "vad_run dstRate16k True st qs =
     (st\<lparr>preRollFrames :=
          lastn 8 (preRollFrames st @ map (\<lambda>ft. convertFloat32ToInt16 (fst ft)) qs)\<rparr>, [])"
  using assms
proof (induction qs arbitrary: st)
  case Nil
  then show ?case by (simp add: lastn_def)
next
  case (Cons ft qs)
  obtain f t where ft: "ft = (f, t)" by (cases ft)
  let ?st = "st\<lparr>preRollFrames := lastn 8 (preRollFrames st @ [convertFloat32ToInt16 f])\<rparr>"
  have q: "quiet f" using Cons.prems ft by simp
  have step: "vad_onmessage dstRate16k True st f t = (?st, [])"
    using q Cons.prems(1) push_preRoll_last [OF Cons.prems(2)]
    by (simp add: vad_onmessage_16k quiet_iff Let_def)
  have a: "\<not> inSpeech ?st" using Cons.prems(1) by simp
  have b: "length (preRollFrames ?st) \<le> 8" by (simp add: length_lastn)
  have c: "\<forall>ft\<in>set qs. quiet (fst ft)" using Cons.prems(3) by simp
  have "vad_run dstRate16k True ?st qs =
     (?st\<lparr>preRollFrames :=
          lastn 8 (preRollFrames ?st @ map (\<lambda>ft. convertFloat32ToInt16 (fst ft)) qs)\<rparr>, [])"
    by (rule Cons.IH [OF a b c])
  moreover have "lastn 8 (preRollFrames ?st @ map (\<lambda>ft. convertFloat32ToInt16 (fst ft)) qs) =
     lastn 8 (preRollFrames st @ map (\<lambda>ft. convertFloat32ToInt16 (fst ft)) (ft # qs))"
    using lastn_lastn_append [of 8 "preRollFrames st @ [convertFloat32ToInt16 f]"]
    by (simp add: ft)
  ultimately show ?case unfolding ft using step by simp
qed

lemma vad_run_append:
  "vad_run r w st (xs @ ys) =
     (fst (vad_run r w (fst (vad_run r w st xs)) ys),
      snd (vad_run r w st xs) @ snd (vad_run r w (fst (vad_run r w st xs)) ys))"
  by (induction xs arbitrary: st) (auto simp: Let_def)

text \<open>
  What the transport receives for \<open>N\<close> quiet frames and one loud frame, from a fresh
  handler with the socket open: the last \<open>min N 7\<close> quiet frames, then the loud frame
  twice. The loud frame is pushed into the pre-roll before the flush, so the flush
  sends it (and one quiet frame fewer), and the send of the current frame sends it again.
\<close>

theorem vad_preroll_flush_general:
  assumes "\<forall>ft\<in>set qs. quiet (fst ft)" and "\<not> quiet l"
  shows "snd (vad_run dstRate16k True vad_init (qs @ [(l, t)])) =
     map array_buffer
       (lastn 7 (map (\<lambda>ft. convertFloat32ToInt16 (fst ft)) qs)
          @ [convertFloat32ToInt16 l, convertFloat32ToInt16 l])"
proof -
  let ?encs = "map (\<lambda>ft. convertFloat32ToInt16 (fst ft)) qs"
  have i: "\<not> inSpeech vad_init" "length (preRollFrames vad_init) \<le> 8"
    by (simp_all add: vad_init_def)
  have run: "vad_run dstRate16k True vad_init qs = (vad_init\<lparr>preRollFrames := lastn 8 ?encs\<rparr>, [])"
    using vad_quiet_run [OF i assms(1)] by (simp add: vad_init_def)
  have push: "push_preRoll (lastn 8 ?encs) (convertFloat32ToInt16 l)
                = lastn 7 ?encs @ [convertFloat32ToInt16 l]"
    using push_preRoll_last [of "lastn 8 ?encs" "convertFloat32ToInt16 l"]
      lastn_lastn_append [of 8 ?encs "[convertFloat32ToInt16 l]"]
      lastn_snoc [of 7 ?encs "convertFloat32ToInt16 l"]
    by (simp add: length_lastn)
  show ?thesis
    unfolding vad_run_append run using assms(2) push
    by (simp add: vad_onmessage_16k quiet_iff Let_def flush_preRoll_open)
qed


text \<open>
  C1, the code at two inputs. After one quiet frame the loud frame goes out twice; after
  eight quiet frames only seven of them go out, followed by the loud frame twice.
\<close>

theorem vad_loud_frame_sent_twice:
  "snd (vad_run dstRate16k True vad_init [([0], 0), ([1], 128)])
     = map array_buffer [[0], [32767], [32767]] \<and>
   snd (vad_run dstRate16k True vad_init
         [([1 / 1000], 0), ([2 / 1000], 128), ([3 / 1000], 256), ([4 / 1000], 384),
          ([5 / 1000], 512), ([6 / 1000], 640), ([7 / 1000], 768), ([8 / 1000], 896),
          ([1], 1024)])
     = map array_buffer [[65], [98], [131], [163], [196], [229], [262], [32767], [32767]]"
proof (intro conjI)
  show "snd (vad_run dstRate16k True vad_init [([0], 0), ([1], 128)])
     = map array_buffer [[0], [32767], [32767]]"
    by (simp add: vad_onmessage_16k vad_init_def push_preRoll_def maxPreRoll_def pcm_of_quiet Let_def)
next
  have q: "\<forall>ft\<in>set [([1 / 1000], 0), ([2 / 1000], 128), ([3 / 1000], 256), ([4 / 1000], 384),
          ([5 / 1000], 512), ([6 / 1000], 640), ([7 / 1000], 768), ([8 / 1000 :: real], 896 :: int)].
          quiet (fst ft)"
    by (simp add: quiet_iff)
  have l: "\<not> quiet [1]" by (simp add: quiet_iff)
  have app: "[([1 / 1000], 0), ([2 / 1000], 128), ([3 / 1000], 256), ([4 / 1000], 384),
          ([5 / 1000], 512), ([6 / 1000], 640), ([7 / 1000], 768), ([8 / 1000 :: real], 896 :: int)]
          @ [([1], 1024)] =
         [([1 / 1000], 0), ([2 / 1000], 128), ([3 / 1000], 256), ([4 / 1000], 384),
          ([5 / 1000], 512), ([6 / 1000], 640), ([7 / 1000], 768), ([8 / 1000], 896),
          ([1], 1024)]"
    by simp
  have encs: "lastn 7 (map (\<lambda>ft. convertFloat32ToInt16 (fst ft))
         [([1 / 1000], 0), ([2 / 1000], 128), ([3 / 1000], 256), ([4 / 1000], 384),
          ([5 / 1000], 512), ([6 / 1000], 640), ([7 / 1000], 768), ([8 / 1000 :: real], 896 :: int)])
         @ [convertFloat32ToInt16 [1], convertFloat32ToInt16 [1]] =
       [[65], [98], [131], [163], [196], [229], [262], [32767], [32767]]"
    by (simp add: lastn_def convertFloat32ToInt16_def pcm_sample_def ToInt16_def js_trunc_def)
  from vad_preroll_flush_general [OF q l, of 1024]
  show "snd (vad_run dstRate16k True vad_init
         [([1 / 1000], 0), ([2 / 1000], 128), ([3 / 1000], 256), ([4 / 1000], 384),
          ([5 / 1000], 512), ([6 / 1000], 640), ([7 / 1000], 768), ([8 / 1000], 896),
          ([1], 1024)])
     = map array_buffer [[65], [98], [131], [163], [196], [229], [262], [32767], [32767]]"
    unfolding app encs .
qed


section \<open>Properties of the voice analyzer\<close>

lemma detectSpeakerChange_eq:
  assumes "speakerProfiles a 0 = Some p0" and "speakerProfiles a 1 = Some p1"
  shows "detectSpeakerChange a pitch energy centroid =
     Inr (if calculateDistance \<lparr>f_pitch = pitch, f_energy = energy, f_spectralCentroid = centroid\<rparr> p0
             < calculateDistance \<lparr>f_pitch = pitch, f_energy = energy, f_spectralCentroid = centroid\<rparr> p1
          then 0 else 1,
          confidence_of
            (calculateDistance \<lparr>f_pitch = pitch, f_energy = energy, f_spectralCentroid = centroid\<rparr> p0)
            (calculateDistance \<lparr>f_pitch = pitch, f_energy = energy, f_spectralCentroid = centroid\<rparr> p1))"
  using assms by (simp add: detectSpeakerChange_def confidence_of_def Let_def)

lemma detectSpeakerChange_total:
  assumes "speakerProfiles a 0 \<noteq> None" and "speakerProfiles a 1 \<noteq> None"
  shows "\<exists>ns c. detectSpeakerChange a pitch energy centroid = Inr (ns, c) \<and> ns \<le> 1"
proof -
  from assms obtain p0 p1 where "speakerProfiles a 0 = Some p0" "speakerProfiles a 1 = Some p1"
    by auto
  from detectSpeakerChange_eq [OF this] show ?thesis by simp
qed

lemma updateSpeakerProfile_total:
  assumes "speakerProfiles a k \<noteq> None"
  shows "\<exists>a'. updateSpeakerProfile a k pitch energy centroid now = Inr a' \<and>
           pitchHistory a' = pitchHistory a \<and> energyHistory a' = energyHistory a \<and>
           spectralHistory a' = spectralHistory a \<and> currentSpeaker a' = currentSpeaker a \<and>
           sampleRate a' = sampleRate a \<and>
           (\<forall>j. speakerProfiles a j \<noteq> None \<longrightarrow> speakerProfiles a' j \<noteq> None)"
proof -
  from assms obtain p where "speakerProfiles a k = Some p" by auto
  then show ?thesis by (simp add: updateSpeakerProfile_def Let_def)
qed


lemma push_history_fields:
  "speakerProfiles (push_history a p e s) = speakerProfiles a"
  "currentSpeaker (push_history a p e s) = currentSpeaker a"
  "sampleRate (push_history a p e s) = sampleRate a"
  by (simp_all add: push_history_def Let_def)

lemma push_history_length:
  "length (pitchHistory (push_history a p e s)) =
     (if length (pitchHistory a) + 1 > 50 then length (pitchHistory a) else length (pitchHistory a) + 1)"
  "length (energyHistory (push_history a p e s)) =
     (if length (pitchHistory a) + 1 > 50 then length (energyHistory a) else length (energyHistory a) + 1)"
  "length (spectralHistory (push_history a p e s)) =
     (if length (pitchHistory a) + 1 > 50 then length (spectralHistory a) else length (spectralHistory a) + 1)"
  by (simp_all add: push_history_def Let_def analysisWindowSize_def)

lemma detectSpeakerChange_push_history:
  "detectSpeakerChange (push_history a p e s) = detectSpeakerChange a"
  by (intro ext) (simp add: detectSpeakerChange_def push_history_fields)

lemma analyzeFeatures_skip:
  assumes "length (pitchHistory (push_history a p e s)) \<le> 10"
  shows "analyzeFeatures a p e s tU tE =
     Inr (push_history a p e s, \<lparr>speaker = currentSpeaker a, changeEvent = None\<rparr>)"
  using assms
  by (simp add: analyzeFeatures_def push_history_def Let_def)

lemma analyzeFeatures_classify:
  assumes "length (pitchHistory (push_history a p e s)) > 10"
    and "detectSpeakerChange a p e s = Inr (ns, c)"
  shows "analyzeFeatures a p e s tU tE =
     (if ns \<noteq> currentSpeaker a \<and> c > speakerChangeThreshold
      then (case updateSpeakerProfile ((push_history a p e s)\<lparr>currentSpeaker := ns\<rparr>) ns p e s tU of
              Inl err \<Rightarrow> Inl err
            | Inr a3 \<Rightarrow>
                Inr (a3, \<lparr>speaker = currentSpeaker a3,
                          changeEvent = Some \<lparr>ev_timestamp = tE, ev_confidence = c, ev_newSpeaker = ns,
                            ev_features = \<lparr>f_pitch = p, f_energy = e, f_spectralCentroid = s\<rparr>\<rparr>\<rparr>))
      else Inr (push_history a p e s, \<lparr>speaker = currentSpeaker a, changeEvent = None\<rparr>))"
proof -
  have d: "detectSpeakerChange (push_history a p e s) p e s = Inr (ns, c)"
    using assms(2) by (simp add: detectSpeakerChange_push_history)
  have "analyzeFeatures a p e s tU tE =
     (let a2 = push_history a p e s
      in if length (pitchHistory a2) > 10
         then (case detectSpeakerChange a2 p e s of
                 Inl err \<Rightarrow> Inl err
               | Inr (newSpeaker, confidence) \<Rightarrow>
                   if newSpeaker \<noteq> currentSpeaker a2 \<and> confidence > speakerChangeThreshold
                   then (case updateSpeakerProfile (a2\<lparr>currentSpeaker := newSpeaker\<rparr>)
                                newSpeaker p e s tU of
                           Inl err \<Rightarrow> Inl err
                         | Inr a3 \<Rightarrow>
                             Inr (a3, \<lparr>speaker = currentSpeaker a3,
                                       changeEvent = Some \<lparr>ev_timestamp = tE,
                                         ev_confidence = confidence, ev_newSpeaker = newSpeaker,
                                         ev_features = \<lparr>f_pitch = p, f_energy = e,
                                           f_spectralCentroid = s\<rparr>\<rparr>\<rparr>))
                   else Inr (a2, \<lparr>speaker = currentSpeaker a2, changeEvent = None\<rparr>))
         else Inr (a2, \<lparr>speaker = currentSpeaker a2, changeEvent = None\<rparr>))"
    unfolding analyzeFeatures_def push_history_def Let_def ..
  then show ?thesis using assms(1) d by (simp add: Let_def push_history_fields)
qed


lemma analyzer_inv_new: "analyzer_inv (new_VoiceAnalyzer rate now)"
  by (simp add: analyzer_inv_def new_VoiceAnalyzer_def)

lemma analyzer_inv_reset: "analyzer_inv a \<Longrightarrow> analyzer_inv (reset a now)"
  by (auto simp: analyzer_inv_def reset_def)

lemma analyzer_inv_push:
  assumes "analyzer_inv a"
  shows "analyzer_inv (push_history a p e s)"
  using assms unfolding analyzer_inv_def
  by (simp add: push_history_length push_history_fields)

lemma analyzeFeatures_inv:
  assumes "analyzer_inv a"
  shows "\<exists>a' r. analyzeFeatures a p e s tU tE = Inr (a', r) \<and> analyzer_inv a' \<and>
           speaker r = currentSpeaker a' \<and> speaker r \<le> 1"
proof (cases "length (pitchHistory (push_history a p e s)) \<le> 10")
  case True
  from analyzeFeatures_skip [OF True] analyzer_inv_push [OF assms, of p e s] assms
  show ?thesis by (simp add: push_history_fields analyzer_inv_def)
next
  case False
  then have long: "length (pitchHistory (push_history a p e s)) > 10" by simp
  have p0: "speakerProfiles a 0 \<noteq> None" and p1: "speakerProfiles a 1 \<noteq> None"
    using assms by (simp_all add: analyzer_inv_def)
  from detectSpeakerChange_total [OF p0 p1] obtain ns c
    where d: "detectSpeakerChange a p e s = Inr (ns, c)" and ns: "ns \<le> 1" by blast
  note eq = analyzeFeatures_classify [OF long d, of tU tE]
  show ?thesis
  proof (cases "ns \<noteq> currentSpeaker a \<and> c > speakerChangeThreshold")
    case True
    let ?a2 = "(push_history a p e s)\<lparr>currentSpeaker := ns\<rparr>"
    have "speakerProfiles ?a2 ns \<noteq> None"
      using ns p0 p1 by (cases "ns = 0") (auto simp: push_history_fields le_Suc_eq)
    from updateSpeakerProfile_total [OF this, of p e s tU] obtain a3
      where u: "updateSpeakerProfile ?a2 ns p e s tU = Inr a3"
        and h: "pitchHistory a3 = pitchHistory ?a2" "energyHistory a3 = energyHistory ?a2"
          "spectralHistory a3 = spectralHistory ?a2" "currentSpeaker a3 = currentSpeaker ?a2"
        and pr: "\<forall>j. speakerProfiles ?a2 j \<noteq> None \<longrightarrow> speakerProfiles a3 j \<noteq> None"
      by blast
    have "analyzer_inv a3"
      using analyzer_inv_push [OF assms, of p e s] h pr ns
      unfolding analyzer_inv_def by simp
    then show ?thesis using eq True u h ns by simp
  next
    case False
    then show ?thesis
      using eq analyzer_inv_push [OF assms, of p e s] assms
      by (auto simp: push_history_fields analyzer_inv_def)
  qed
qed

lemma reachable_inv: "reachable a \<Longrightarrow> analyzer_inv a"
proof (induction rule: reachable.induct)
  case (made rate now)
  show ?case by (rule analyzer_inv_new)
next
  case (fed a audioData tUpdate tEvent a' r)
  from analyzeFeatures_inv [OF fed.IH] fed.hyps(2) show ?case
    unfolding analyzeFrame_def by (metis Pair_inject sum.inject(2))
next
  case (was_reset a now)
  then show ?case by (simp add: analyzer_inv_reset)
qed

text \<open>
  C10. In every state an analyzer reaches from its constructor through calls of
  \<^verbatim>\<open>analyzeFrame\<close> and \<^verbatim>\<open>reset\<close>, the three histories have one length, at
  most 50, and the current speaker is 0 or 1. A call of \<^verbatim>\<open>analyzeFrame\<close> there
  returns, and the speaker it returns is the stored one, 0 or 1. After \<^verbatim>\<open>reset\<close> the
  histories are empty and the speaker is 0.
\<close>

theorem analyzer_histories_bounded:
  assumes "reachable a"
  shows "length (pitchHistory a) = length (energyHistory a) \<and>
         length (energyHistory a) = length (spectralHistory a) \<and>
         length (pitchHistory a) \<le> 50 \<and>
         (currentSpeaker a = 0 \<or> currentSpeaker a = 1) \<and>
         (\<exists>a' r. analyzeFrame a audioData tUpdate tEvent = Inr (a', r) \<and> reachable a' \<and>
            speaker r = currentSpeaker a' \<and> (speaker r = 0 \<or> speaker r = 1)) \<and>
         reachable (reset a now) \<and> pitchHistory (reset a now) = [] \<and>
         energyHistory (reset a now) = [] \<and> spectralHistory (reset a now) = [] \<and>
         currentSpeaker (reset a now) = 0"
proof -
  have rs: "reachable (reset a now)" using assms by (rule reachable.was_reset)
  have inv: "analyzer_inv a" using assms by (rule reachable_inv)
  from analyzeFeatures_inv [OF inv] obtain a' r
    where f: "analyzeFrame a audioData tUpdate tEvent = Inr (a', r)"
      and s: "speaker r = currentSpeaker a'" "speaker r \<le> 1"
    unfolding analyzeFrame_def by blast
  have "reachable a'" using assms f by (rule reachable.fed)
  then show ?thesis using inv f s rs unfolding analyzer_inv_def
    by (auto simp: le_Suc_eq reset_def)
qed


lemma pitch_step_short: "length audioData \<le> lag \<Longrightarrow> pitch_step audioData lag (0, 0) = (0, 0)"
  by (simp add: pitch_step_def)

lemma fold_pitch_step_short:
  "\<forall>lag\<in>set lags. length audioData \<le> lag \<Longrightarrow> fold (pitch_step audioData) lags (0, 0) = (0, 0)"
  by (induction lags) (simp_all add: pitch_step_short)

lemma extractPitch_tone: "extractPitch 16000 tone = 0"
proof -
  have "fold (pitch_step tone) [40..<200] (0, 0) = (0, 0)"
    by (rule fold_pitch_step_short) (simp add: tone_def)
  then show ?thesis by (simp add: extractPitch_def)
qed

lemma extractEnergy_tone: "extractEnergy tone = 1"
  by (simp add: extractEnergy_def tone_def)

lemma applyHannWindow_tone: "applyHannWindow tone = [0, 0]"
  by (simp add: applyHannWindow_def tone_def)

lemma replicate_16: "replicate 16 (x::real) = [x, x, x, x, x, x, x, x, x, x, x, x, x, x, x, x]"
  by (simp add: numeral_eq_Suc)

lemma extractBandEnergy_silence: "extractBandEnergy [0, 0] = replicate 16 0"
  by (simp add: extractBandEnergy_def band_step_def replicate_16)

lemma fold_centroid_step_zero:
  "\<forall>ei\<in>set eis. fst ei = 0 \<Longrightarrow> fold (centroid_step rate) eis (0, 0) = (0, 0)"
  by (induction eis) (simp_all add: centroid_step_def)

lemma extractSpectralCentroid_tone: "extractSpectralCentroid 16000 tone = 0"
proof -
  have "fold (centroid_step 16000) (zip (replicate 16 0) [0..<length (replicate 16 (0::real))]) (0, 0) = (0, 0)"
    by (rule fold_centroid_step_zero) (auto dest: set_zip_leftD)
  then show ?thesis
    by (simp add: extractSpectralCentroid_def applyHannWindow_tone extractBandEnergy_silence Let_def)
qed

lemma analyzeFrame_tone:
  "sampleRate a = 16000 \<Longrightarrow> analyzeFrame a tone tU tE = analyzeFeatures a 0 1 0 tU tE"
  by (simp add: analyzeFrame_def extractPitch_tone extractEnergy_tone extractSpectralCentroid_tone)

lemma push_history_warm: "n < 50 \<Longrightarrow> push_history (warm n) 0 1 0 = warm (Suc n)"
  by (simp add: push_history_def warm_def Let_def analysisWindowSize_def replicate_append_same)

lemma warm_fields:
  "sampleRate (warm n) = 16000" "currentSpeaker (warm n) = 0"
  "length (pitchHistory (warm n)) = n"
  "speakerProfiles (warm n) = [0 \<mapsto> zero_profile 0, 1 \<mapsto> zero_profile 0]"
  by (simp_all add: warm_def)

lemma analyzeFrame_warm_skip:
  assumes "n < 10"
  shows "analyzeFrame (warm n) tone tU tE = Inr (warm (Suc n), \<lparr>speaker = 0, changeEvent = None\<rparr>)"
proof -
  have "length (pitchHistory (push_history (warm n) 0 1 0)) \<le> 10"
    using assms by (simp add: push_history_warm warm_fields)
  from analyzeFeatures_skip [OF this] show ?thesis
    using assms by (simp add: analyzeFrame_tone push_history_warm warm_fields)
qed

lemma warm_0: "warm 0 = new_VoiceAnalyzer 16000 0"
  by (simp add: warm_def new_VoiceAnalyzer_def)

lemma reachable_warm: "n \<le> 10 \<Longrightarrow> reachable (warm n)"
proof (induction n)
  case 0
  show ?case unfolding warm_0 by (rule reachable.made)
next
  case (Suc n)
  then have "reachable (warm n)" and "n < 10" by simp_all
  then show ?case using analyzeFrame_warm_skip [of n 0 0] by (blast intro: reachable.fed)
qed

lemma analyzeFrames_warm:
  "n + k \<le> 10 \<Longrightarrow>
   analyzeFrames (warm n) (replicate k (tone, 0, 0)) =
     Inr (warm (n + k), replicate k \<lparr>speaker = 0, changeEvent = None\<rparr>)"
proof (induction k arbitrary: n)
  case 0
  show ?case by simp
next
  case (Suc k)
  then have "n < 10" and "Suc n + k \<le> 10" by simp_all
  from analyzeFrame_warm_skip [OF this(1), of 0 0] Suc.IH [OF this(2)]
  show ?case by simp
qed

lemma detect_warm: "detectSpeakerChange (warm n) 0 1 0 = Inr (1, 1)"
  by (simp add: detectSpeakerChange_def warm_def zero_profile_def calculateDistance_def Let_def)


text \<open>
  C2 (as the code has it). The test on the history comes after the current frame is
  pushed and reads \<^verbatim>\<open>pitchHistory.length > 10\<close>. While the history, the current frame
  counted, has at most 10 entries, the call only records the frame and returns the
  current speaker without an event. Once it has more than 10 entries the frame is
  classified: the returned speaker and the presence of an event are what
  \<^verbatim>\<open>detectSpeakerChange\<close> and the threshold decide. The history counts the frames
  since the start or the last reset, up to 50.
\<close>

theorem analyzeFrame_history_gate:
  assumes "reachable a"
  shows "(length (pitchHistory (push_frame a audioData)) \<le> 10 \<longrightarrow>
            analyzeFrame a audioData tU tE =
              Inr (push_frame a audioData, \<lparr>speaker = currentSpeaker a, changeEvent = None\<rparr>)) \<and>
         (length (pitchHistory (push_frame a audioData)) > 10 \<longrightarrow>
            (\<exists>ns c a' r. classify_frame a audioData = Inr (ns, c) \<and>
               analyzeFrame a audioData tU tE = Inr (a', r) \<and>
               speaker r = (if ns \<noteq> currentSpeaker a \<and> c > speakerChangeThreshold
                            then ns else currentSpeaker a) \<and>
               (changeEvent r \<noteq> None \<longleftrightarrow> ns \<noteq> currentSpeaker a \<and> c > speakerChangeThreshold))) \<and>
         length (pitchHistory (push_frame a audioData)) = min (length (pitchHistory a) + 1) 50"
proof -
  define P where "P = extractPitch (sampleRate a) audioData"
  define E where "E = extractEnergy audioData"
  define S where "S = extractSpectralCentroid (sampleRate a) audioData"
  have fr: "analyzeFrame a audioData tU tE = analyzeFeatures a P E S tU tE"
    unfolding analyzeFrame_def P_def E_def S_def ..
  have pf: "push_frame a audioData = push_history a P E S"
    unfolding push_frame_def P_def E_def S_def ..
  have cf: "classify_frame a audioData = detectSpeakerChange a P E S"
    unfolding classify_frame_def P_def E_def S_def ..
  have inv: "analyzer_inv a" using assms by (rule reachable_inv)
  have skip: "analyzeFeatures a P E S tU tE =
          Inr (push_history a P E S, \<lparr>speaker = currentSpeaker a, changeEvent = None\<rparr>)"
    if "length (pitchHistory (push_history a P E S)) \<le> 10"
    using that by (rule analyzeFeatures_skip)
  have classify: "\<exists>ns c a' r. detectSpeakerChange a P E S = Inr (ns, c) \<and>
               analyzeFeatures a P E S tU tE = Inr (a', r) \<and>
               speaker r = (if ns \<noteq> currentSpeaker a \<and> c > speakerChangeThreshold
                            then ns else currentSpeaker a) \<and>
               (changeEvent r \<noteq> None \<longleftrightarrow> ns \<noteq> currentSpeaker a \<and> c > speakerChangeThreshold)"
    if long: "length (pitchHistory (push_history a P E S)) > 10"
  proof -
    have p0: "speakerProfiles a 0 \<noteq> None" and p1: "speakerProfiles a 1 \<noteq> None"
      using inv by (simp_all add: analyzer_inv_def)
    from detectSpeakerChange_total [OF p0 p1] obtain ns c
      where d: "detectSpeakerChange a P E S = Inr (ns, c)" and ns: "ns \<le> 1" by blast
    note eq = analyzeFeatures_classify [OF long d, of tU tE]
    show ?thesis
    proof (cases "ns \<noteq> currentSpeaker a \<and> c > speakerChangeThreshold")
      case True
      let ?a2 = "(push_history a P E S)\<lparr>currentSpeaker := ns\<rparr>"
      have "speakerProfiles ?a2 ns \<noteq> None"
        using ns p0 p1 by (cases "ns = 0") (auto simp: push_history_fields le_Suc_eq)
      from updateSpeakerProfile_total [OF this, of P E S tU] obtain a3
        where u: "updateSpeakerProfile ?a2 ns P E S tU = Inr a3"
          and h: "currentSpeaker a3 = currentSpeaker ?a2"
        by blast
      show ?thesis using d True eq u h by simp
    next
      case False
      then show ?thesis using d eq by auto
    qed
  qed
  have "length (pitchHistory a) \<le> 50" using inv by (simp add: analyzer_inv_def)
  then have len: "length (pitchHistory (push_history a P E S)) = min (length (pitchHistory a) + 1) 50"
    by (simp add: push_history_length)
  from skip classify len show ?thesis unfolding fr pf cf by blast
qed

lemma push_frame_warm_tone: "n < 50 \<Longrightarrow> push_frame (warm n) tone = warm (Suc n)"
  by (simp add: push_frame_def warm_fields extractPitch_tone extractEnergy_tone
      extractSpectralCentroid_tone push_history_warm)

lemma classify_frame_warm_tone: "classify_frame (warm n) tone = Inr (1, 1)"
  by (simp add: classify_frame_def warm_fields extractPitch_tone extractEnergy_tone
      extractSpectralCentroid_tone detect_warm)

theorem analyzeFrame_history_gate_witness:
  "reachable (warm 3) \<and> length (pitchHistory (warm 4)) \<le> 10 \<and>
   analyzeFrame (warm 3) tone 0 0 = Inr (warm 4, \<lparr>speaker = 0, changeEvent = None\<rparr>) \<and>
   reachable (warm 10) \<and> length (pitchHistory (warm 11)) > 10 \<and>
   (\<exists>a' r. analyzeFrame (warm 10) tone 0 0 = Inr (a', r) \<and> speaker r = 1 \<and> changeEvent r \<noteq> None)"
proof -
  have r3: "reachable (warm 3)" and r10: "reachable (warm 10)"
    by (simp_all add: reachable_warm)
  have l4: "length (pitchHistory (warm 4)) \<le> 10" and l11: "length (pitchHistory (warm 11)) > 10"
    by (simp_all add: warm_fields)
  have p3: "push_frame (warm 3) tone = warm 4"
    using push_frame_warm_tone [of 3] by simp
  have p10: "push_frame (warm 10) tone = warm 11"
    using push_frame_warm_tone [of 10] by simp
  have skip: "analyzeFrame (warm 3) tone 0 0 = Inr (warm 4, \<lparr>speaker = 0, changeEvent = None\<rparr>)"
    using analyzeFrame_history_gate [OF r3, of tone 0 0] l4
    unfolding p3 by (simp add: warm_fields)
  have "\<exists>a' r. analyzeFrame (warm 10) tone 0 0 = Inr (a', r) \<and> speaker r = 1 \<and> changeEvent r \<noteq> None"
    using analyzeFrame_history_gate [OF r10, of tone 0 0] l11
    unfolding p10 classify_frame_warm_tone by (auto simp: warm_fields speakerChangeThreshold_def)
  with r3 r10 l4 l11 skip show ?thesis by blast
qed

text \<open>
  C2, counterexample. A fresh analyzer at 16 kHz is fed ten frames of full amplitude.
  At the tenth the history has ten entries, not fewer than ten, and the classifier would
  choose speaker 1 with confidence 1, above the threshold; the call still returns
  speaker 0 and no event. The switch comes with the eleventh frame.
\<close>

theorem analyzeFrame_tenth_frame_counterexample:
  "analyzeFrames (new_VoiceAnalyzer 16000 0) (replicate 9 (tone, 0, 0)) =
     Inr (warm 9, replicate 9 \<lparr>speaker = 0, changeEvent = None\<rparr>) \<and>
   analyzeFrame (warm 9) tone 0 0 = Inr (warm 10, \<lparr>speaker = 0, changeEvent = None\<rparr>) \<and>
   push_frame (warm 9) tone = warm 10 \<and>
   length (pitchHistory (warm 10)) = 10 \<and>
   \<not> length (pitchHistory (warm 10)) < 10 \<and>
   classify_frame (warm 9) tone = Inr (1, 1) \<and>
   1 \<noteq> currentSpeaker (warm 9) \<and> 1 > speakerChangeThreshold"
  using analyzeFrames_warm [of 0 9] analyzeFrame_warm_skip [of 9 0 0] push_frame_warm_tone [of 9]
  by (simp add: warm_0 warm_fields classify_frame_warm_tone speakerChangeThreshold_def)

text \<open>
  C3 (as the code has it). With both profiles present, the confidence is
  \<open>min d0 d1 / max d0 d1\<close>, and \<open>1/2\<close> when the greater distance is not positive. For
  non-negative distances it lies between 0 and 1. It is 1, the highest value, when the
  two distances are equal and positive, and it falls as the greater distance moves away
  from the smaller one: equal distances give a high confidence, distances far apart a
  low one.
\<close>

theorem detectSpeakerChange_confidence:
  assumes "speakerProfiles a 0 = Some p0" and "speakerProfiles a 1 = Some p1"
    and "d0 = calculateDistance \<lparr>f_pitch = pitch, f_energy = energy, f_spectralCentroid = centroid\<rparr> p0"
    and "d1 = calculateDistance \<lparr>f_pitch = pitch, f_energy = energy, f_spectralCentroid = centroid\<rparr> p1"
  shows "detectSpeakerChange a pitch energy centroid =
           Inr (if d0 < d1 then 0 else 1,
                if max d0 d1 > 0 then min d0 d1 / max d0 d1 else 1 / 2) \<and>
         confidence_of d0 d1 = (if max d0 d1 > 0 then min d0 d1 / max d0 d1 else 1 / 2) \<and>
         (0 \<le> d0 \<and> 0 \<le> d1 \<longrightarrow> 0 \<le> confidence_of d0 d1 \<and> confidence_of d0 d1 \<le> 1) \<and>
         (0 < d0 \<and> d0 = d1 \<longrightarrow> confidence_of d0 d1 = 1) \<and>
         (\<forall>m M M'. 0 \<le> m \<and> m \<le> M \<and> 0 < M \<and> M \<le> M' \<longrightarrow>
            confidence_of m M' \<le> confidence_of m M \<and> confidence_of M' m \<le> confidence_of M m)"
proof (intro conjI allI impI)
  show "detectSpeakerChange a pitch energy centroid =
           Inr (if d0 < d1 then 0 else 1,
                if max d0 d1 > 0 then min d0 d1 / max d0 d1 else 1 / 2)"
    using detectSpeakerChange_eq [OF assms(1,2), of pitch energy centroid]
    unfolding assms(3,4) by (simp add: confidence_of_def Let_def)
next
  show "confidence_of d0 d1 = (if max d0 d1 > 0 then min d0 d1 / max d0 d1 else 1 / 2)"
    by (simp add: confidence_of_def Let_def)
next
  assume "0 \<le> d0 \<and> 0 \<le> d1"
  then show "0 \<le> confidence_of d0 d1" "confidence_of d0 d1 \<le> 1"
    by (auto simp: confidence_of_def Let_def max_def min_def)
next
  assume "0 < d0 \<and> d0 = d1"
  then show "confidence_of d0 d1 = 1"
    by (simp add: confidence_of_def Let_def)
next
  fix m M M' :: real
  assume h: "0 \<le> m \<and> m \<le> M \<and> 0 < M \<and> M \<le> M'"
  then have "m / M' \<le> m / M" by (simp add: frac_le)
  moreover have "max m M = M" "max m M' = M'" "min m M = m" "min m M' = m"
    "max M m = M" "max M' m = M'" "min M m = m" "min M' m = m"
    using h by (simp_all add: max_def min_def)
  ultimately show "confidence_of m M' \<le> confidence_of m M" "confidence_of M' m \<le> confidence_of M m"
    using h by (simp_all add: confidence_of_def Let_def)
qed

theorem detectSpeakerChange_confidence_witness:
  "speakerProfiles (warm 0) 0 = Some (zero_profile 0) \<and> speakerProfiles (warm 0) 1 = Some (zero_profile 0) \<and>
   calculateDistance \<lparr>f_pitch = 0, f_energy = 1, f_spectralCentroid = 0\<rparr> (zero_profile 0) = 25 \<and>
   detectSpeakerChange (warm 0) 0 1 0 = Inr (1, 1) \<and>
   confidence_of 25 25 = 1 \<and>
   confidence_of 1 100 \<le> confidence_of 1 2"
proof -
  have p: "speakerProfiles (warm 0) 0 = Some (zero_profile 0)"
    "speakerProfiles (warm 0) 1 = Some (zero_profile 0)"
    by (simp_all add: warm_fields)
  have d: "(25::real) = calculateDistance \<lparr>f_pitch = 0, f_energy = 1, f_spectralCentroid = 0\<rparr> (zero_profile 0)"
    by (simp add: calculateDistance_def zero_profile_def)
  have m: "(0::real) \<le> 1 \<and> (1::real) \<le> 2 \<and> (0::real) < 2 \<and> (2::real) \<le> 100" by simp
  from detectSpeakerChange_confidence [OF p d d] m p d
  show ?thesis by simp
qed

text \<open>
  C3, counterexample. A frame equally far from both profiles (distances 25 and 25) gets
  confidence 1; a frame that fits profile 1 exactly and is far from profile 0
  (distances 5/2 and 0) gets confidence 0.
\<close>

theorem confidence_inverted_counterexample:
  "calculateDistance \<lparr>f_pitch = 0, f_energy = 1, f_spectralCentroid = 0\<rparr> (zero_profile 0) = 25 \<and>
   detectSpeakerChange (warm 0) 0 1 0 = Inr (1, 1) \<and>
   calculateDistance \<lparr>f_pitch = 0, f_energy = 1 / 10, f_spectralCentroid = 0\<rparr> (zero_profile 0) = 5 / 2 \<and>
   calculateDistance \<lparr>f_pitch = 0, f_energy = 1 / 10, f_spectralCentroid = 0\<rparr>
     ((zero_profile 0)\<lparr>avgEnergy := 1 / 10\<rparr>) = 0 \<and>
   detectSpeakerChange
     ((warm 0)\<lparr>speakerProfiles := [0 \<mapsto> zero_profile 0, 1 \<mapsto> (zero_profile 0)\<lparr>avgEnergy := 1 / 10\<rparr>]\<rparr>)
     0 (1 / 10) 0 = Inr (1, 0)"
  by (simp add: detectSpeakerChange_def calculateDistance_def zero_profile_def warm_def Let_def)

theorem analyzer_histories_bounded_witness:
  "reachable (warm 10) \<and> length (pitchHistory (warm 10)) \<le> 50 \<and>
   (\<exists>a' r. analyzeFrame (warm 10) tone 0 0 = Inr (a', r) \<and> reachable a' \<and>
      speaker r = currentSpeaker a' \<and> (speaker r = 0 \<or> speaker r = 1))"
proof -
  have r: "reachable (warm 10)" by (simp add: reachable_warm)
  from analyzer_histories_bounded [OF r, of tone 0 0 0] r show ?thesis by blast
qed


end
